theory Spec2Isabelle
  imports Complex_Main "HOL-Library.Word"
begin

unbundle bit_operations_syntax

section \<open>Conventions of the embedding\<close>

text \<open>
  The C sources (\<^verbatim>\<open>bmp8.c\<close>, \<^verbatim>\<open>bmp24.c\<close>, \<^verbatim>\<open>bmp24.h\<close>, \<^verbatim>\<open>histogram.c\<close>) are embedded for
  an LP64 little-endian platform: \<^verbatim>\<open>int\<close> and \<^verbatim>\<open>unsigned int\<close> have 32 bits,
  \<^verbatim>\<open>size_t\<close> and \<^verbatim>\<open>unsigned long long\<close> have 64 bits.

  \<^item> Unsigned machine integers are words; their arithmetic wraps around.
  \<^item> A C \<^verbatim>\<open>int\<close> is an \<^typ>\<open>int\<close> between \<open>INT_MIN\<close> and \<open>INT_MAX\<close>. Signed overflow
    has no defined behaviour in C; wherever the source can overflow, the model checks
    the range and yields \<open>Undefined\<close>.
  \<^item> A buffer is a list. An access outside the list has no defined behaviour in C and
    yields \<open>Undefined\<close> in the model. A pointer that may be \<^verbatim>\<open>NULL\<close> is an option.
  \<^item> A function that mutates an image in place takes the image and returns the image
    after the call.
\<close>

type_synonym byte = "8 word"
type_synonym u16 = "16 word"
type_synonym u32 = "32 word"
type_synonym u64 = "64 word"

definition INT_MAX :: int where
  "INT_MAX = 2147483647"

definition INT_MIN :: int where
  "INT_MIN = - 2147483648"

text \<open>The result of running a piece of C: a value, or no defined behaviour.\<close>

datatype 'a outcome = Returns 'a | Undefined

fun traverse :: "('a \<Rightarrow> 'b outcome) \<Rightarrow> 'a list \<Rightarrow> 'b list outcome" where
  "traverse f [] = Returns []"
| "traverse f (x # xs) =
     (case f x of
        Undefined \<Rightarrow> Undefined
      | Returns y \<Rightarrow> (case traverse f xs of
                       Undefined \<Rightarrow> Undefined
                     | Returns ys \<Rightarrow> Returns (y # ys)))"

text \<open>
  The loop \<^verbatim>\<open>for (i = 0; i < n; ++i) buf[i] = f(buf[i]);\<close> over a buffer \<open>buf\<close>: the first
  \<open>n\<close> cells are rewritten, the others are kept; the loop leaves the buffer when
  \<open>n\<close> exceeds its length.
\<close>

definition for_each :: "nat \<Rightarrow> ('a \<Rightarrow> 'a outcome) \<Rightarrow> 'a list \<Rightarrow> 'a list outcome" where
  "for_each n f buf =
     (if n \<le> length buf
      then (case traverse f (take n buf) of
              Undefined \<Rightarrow> Undefined
            | Returns ys \<Rightarrow> Returns (ys @ drop n buf))
      else Undefined)"

section \<open>Data model\<close>

subsection \<open>8-bit images (\<^verbatim>\<open>t_bmp8\<close>)\<close>

record t_bmp8 =
  header8 :: "byte list"         \<comment> \<open>\<^verbatim>\<open>unsigned char header[54]\<close>\<close>
  colorTable :: "byte list"      \<comment> \<open>\<^verbatim>\<open>unsigned char colorTable[1024]\<close>\<close>
  data8 :: "byte list option"    \<comment> \<open>\<^verbatim>\<open>unsigned char *data\<close>\<close>
  width8 :: u32
  height8 :: u32
  colorDepth8 :: u32
  dataSize :: u32

subsection \<open>24-bit images (\<^verbatim>\<open>t_bmp_header\<close>, \<^verbatim>\<open>t_bmp_info\<close>, \<^verbatim>\<open>t_pixel\<close>, \<^verbatim>\<open>t_bmp24\<close>)\<close>

record t_bmp_header =
  hdr_type :: u16
  hdr_size :: u32
  hdr_reserved1 :: u16
  hdr_reserved2 :: u16
  hdr_offset :: u32

text \<open>The \<^verbatim>\<open>int32_t\<close> fields are kept as the 32 bits stored; \<^const>\<open>sint\<close> reads them.\<close>

record t_bmp_info =
  info_size :: u32
  info_width :: u32
  info_height :: u32
  info_planes :: u16
  info_bits :: u16
  info_compression :: u32
  info_imagesize :: u32
  info_xresolution :: u32
  info_yresolution :: u32
  info_ncolors :: u32
  info_importantcolors :: u32

record t_pixel =
  blue :: byte
  green :: byte
  red :: byte

record t_bmp24 =
  header :: t_bmp_header
  header_info :: t_bmp_info
  width :: int
  height :: int
  colorDepth :: int
  data :: "t_pixel list list option"   \<comment> \<open>\<^verbatim>\<open>t_pixel **data\<close>, indexed \<^verbatim>\<open>data[y][x]\<close>\<close>

text \<open>
  The nested loop \<^verbatim>\<open>for (y = 0; y < height; ++y) for (x = 0; x < width; ++x)\<close> that
  rewrites \<^verbatim>\<open>data[y][x]\<close> from its own value.
\<close>

definition for_each_pixel ::
  "int \<Rightarrow> int \<Rightarrow> (t_pixel \<Rightarrow> t_pixel outcome) \<Rightarrow> t_pixel list list \<Rightarrow> t_pixel list list outcome" where
  "for_each_pixel w h f rows = for_each (nat h) (for_each (nat w) f) rows"

section \<open>Point operations\<close>

definition clamp_u8 :: "int \<Rightarrow> byte" where
  "clamp_u8 v = (if v < 0 then 0 else if v > 255 then 255 else word_of_int v)"

subsection \<open>\<^verbatim>\<open>bmp8_negative\<close>, \<^verbatim>\<open>bmp8_brightness\<close>, \<^verbatim>\<open>bmp8_threshold\<close>\<close>

definition bmp8_negative :: "t_bmp8 \<Rightarrow> t_bmp8 outcome" where
  "bmp8_negative img =
     (case data8 img of
        None \<Rightarrow> Returns img
      | Some d \<Rightarrow>
          (case for_each (unat (dataSize img)) (\<lambda>b. Returns (255 - b)) d of
             Undefined \<Rightarrow> Undefined
           | Returns d' \<Rightarrow> Returns (img\<lparr>data8 := Some d'\<rparr>)))"

text \<open>\<^verbatim>\<open>(int)b + value\<close> overflows when the sum exceeds \<open>INT_MAX\<close>.\<close>

definition brighten :: "int \<Rightarrow> byte \<Rightarrow> byte outcome" where
  "brighten v b =
     (if uint b + v > INT_MAX then Undefined else Returns (clamp_u8 (uint b + v)))"

definition bmp8_brightness :: "t_bmp8 \<Rightarrow> int \<Rightarrow> t_bmp8 outcome" where
  "bmp8_brightness img v =
     (case data8 img of
        None \<Rightarrow> Returns img
      | Some d \<Rightarrow>
          (case for_each (unat (dataSize img)) (brighten v) d of
             Undefined \<Rightarrow> Undefined
           | Returns d' \<Rightarrow> Returns (img\<lparr>data8 := Some d'\<rparr>)))"

definition bmp8_threshold :: "t_bmp8 \<Rightarrow> int \<Rightarrow> t_bmp8 outcome" where
  "bmp8_threshold img threshold =
     (case data8 img of
        None \<Rightarrow> Returns img
      | Some d \<Rightarrow>
          (let threshold' = (if threshold < 0 \<or> threshold > 255
                             then (if threshold < 0 then 0 else 255)
                             else threshold);
               threshold_val = (word_of_int threshold' :: byte)
           in case for_each (unat (dataSize img))
                     (\<lambda>b. Returns (if b \<ge> threshold_val then 255 else 0)) d of
                Undefined \<Rightarrow> Undefined
              | Returns d' \<Rightarrow> Returns (img\<lparr>data8 := Some d'\<rparr>)))"

subsection \<open>\<^verbatim>\<open>bmp24_negative\<close>, \<^verbatim>\<open>bmp24_brightness\<close>\<close>

definition negative_pixel :: "t_pixel \<Rightarrow> t_pixel" where
  "negative_pixel p = p\<lparr>red := 255 - red p, green := 255 - green p, blue := 255 - blue p\<rparr>"

definition bmp24_negative :: "t_bmp24 \<Rightarrow> t_bmp24 outcome" where
  "bmp24_negative img =
     (case data img of
        None \<Rightarrow> Returns img
      | Some d \<Rightarrow>
          (case for_each_pixel (width img) (height img) (\<lambda>p. Returns (negative_pixel p)) d of
             Undefined \<Rightarrow> Undefined
           | Returns d' \<Rightarrow> Returns (img\<lparr>data := Some d'\<rparr>)))"

definition brighten_pixel :: "int \<Rightarrow> t_pixel \<Rightarrow> t_pixel outcome" where
  "brighten_pixel v p =
     (case brighten v (red p) of
        Undefined \<Rightarrow> Undefined
      | Returns r \<Rightarrow>
          (case brighten v (green p) of
             Undefined \<Rightarrow> Undefined
           | Returns g \<Rightarrow>
               (case brighten v (blue p) of
                  Undefined \<Rightarrow> Undefined
                | Returns b \<Rightarrow> Returns (p\<lparr>red := r, green := g, blue := b\<rparr>))))"

definition bmp24_brightness :: "t_bmp24 \<Rightarrow> int \<Rightarrow> t_bmp24 outcome" where
  "bmp24_brightness img v =
     (case data img of
        None \<Rightarrow> Returns img
      | Some d \<Rightarrow>
          (case for_each_pixel (width img) (height img) (brighten_pixel v) d of
             Undefined \<Rightarrow> Undefined
           | Returns d' \<Rightarrow> Returns (img\<lparr>data := Some d'\<rparr>)))"

section \<open>Environment: memory allocation and files\<close>

text \<open>
  \<^verbatim>\<open>malloc(n)\<close> returns \<^verbatim>\<open>NULL\<close> unless \<open>can_alloc n\<close> holds, and does not initialise
  the block it returns: byte \<open>i\<close> of a fresh block is \<open>junk i\<close>. \<^verbatim>\<open>calloc\<close> fails in the
  same way and returns zeroed memory.

  A file opened for reading is the sequence of its bytes; \<open>None\<close> stands for a path that
  \<^verbatim>\<open>fopen\<close> cannot open. \<^verbatim>\<open>fread\<close> falls short exactly when the file has too few bytes
  left. A file opened for writing starts empty and accepts every write: the failure
  branches of \<^verbatim>\<open>fopen(.., "wb")\<close> and \<^verbatim>\<open>fwrite\<close> are not part of the model.
\<close>

record heap =
  can_alloc :: "nat \<Rightarrow> bool"
  junk :: "nat \<Rightarrow> byte"

definition sizeof_t_bmp8 :: nat where
  "sizeof_t_bmp8 = 1104"

definition sizeof_t_bmp24 :: nat where
  "sizeof_t_bmp24 = 80"

text \<open>\<^verbatim>\<open>fseek(file, pos, SEEK_SET)\<close> followed by \<^verbatim>\<open>fread(buf, 1, n, file)\<close>: the bytes read.\<close>

definition fread_at :: "nat \<Rightarrow> nat \<Rightarrow> byte list \<Rightarrow> byte list" where
  "fread_at pos n file = take n (drop pos file)"

text \<open>
  \<^verbatim>\<open>fseek(file, pos, SEEK_SET)\<close> followed by \<^verbatim>\<open>fwrite(buf, 1, n, file)\<close>: the file after the
  write. A gap between the end of the file and \<open>pos\<close> reads as zero bytes.
\<close>

definition fwrite_at :: "nat \<Rightarrow> byte list \<Rightarrow> byte list \<Rightarrow> byte list" where
  "fwrite_at pos buf file =
     (if buf = [] then file
      else take pos file @ replicate (pos - length file) 0 @ buf @ drop (pos + length buf) file)"

text \<open>Little-endian fields of a byte buffer.\<close>

fun le_decode :: "byte list \<Rightarrow> 'a::len word" where
  "le_decode [] = 0"
| "le_decode (b # bs) = ucast b OR push_bit 8 (le_decode bs)"

definition encode_u16 :: "u16 \<Rightarrow> byte list" where
  "encode_u16 w = [ucast w, ucast (drop_bit 8 w)]"

definition encode_u32 :: "u32 \<Rightarrow> byte list" where
  "encode_u32 w = [ucast w, ucast (drop_bit 8 w), ucast (drop_bit 16 w), ucast (drop_bit 24 w)]"

definition read_u16 :: "byte list \<Rightarrow> nat \<Rightarrow> u16" where
  "read_u16 buf off = le_decode (take 2 (drop off buf))"

definition read_u32 :: "byte list \<Rightarrow> nat \<Rightarrow> u32" where
  "read_u32 buf off = le_decode (take 4 (drop off buf))"

text \<open>
  The loaders return \<^verbatim>\<open>NULL\<close> after printing a diagnostic; the model names the
  diagnostic.
\<close>

datatype error =
    OpenError
  | HeaderReadError
  | BadSignature
  | UnsupportedDepth
  | UnsupportedCompression
  | ColorTableReadError
  | InvalidDimensions
  | AllocationFailure
  | PixelReadError

section \<open>8-bit codec\<close>

subsection \<open>\<^verbatim>\<open>bmp8_loadImage\<close>\<close>

definition bmp8_loadImage :: "heap \<Rightarrow> byte list option \<Rightarrow> error + t_bmp8" where
  "bmp8_loadImage hp file =
     (case file of
        None \<Rightarrow> Inl OpenError
      | Some f \<Rightarrow>
          if \<not> can_alloc hp sizeof_t_bmp8 then Inl AllocationFailure
          else
            let hdr = fread_at 0 54 f in
            if length hdr \<noteq> 54 then Inl HeaderReadError
            else if hdr ! 0 \<noteq> 0x42 \<or> hdr ! 1 \<noteq> 0x4D then Inl BadSignature
            else
              let w = read_u32 hdr 18;
                  h = read_u32 hdr 22;
                  depth = (ucast (read_u16 hdr 28) :: u32);
                  dsize = read_u32 hdr 34;
                  dataOffset = read_u32 hdr 10
              in
              if depth \<noteq> 8 then Inl UnsupportedDepth
              else
                let ct = fread_at 54 1024 f in
                if length ct \<noteq> 1024 then Inl ColorTableReadError
                else
                  let dsize' = (if dsize = 0 then w * h else dsize) in
                  if \<not> can_alloc hp (unat dsize') then Inl AllocationFailure
                  else
                    let pixels = fread_at (unat dataOffset) (unat dsize') f in
                    if length pixels \<noteq> unat dsize' then Inl PixelReadError
                    else Inr \<lparr>header8 = hdr, colorTable = ct, data8 = Some pixels,
                              width8 = w, height8 = h, colorDepth8 = depth,
                              dataSize = dsize'\<rparr>)"

subsection \<open>\<^verbatim>\<open>bmp8_saveImage\<close>\<close>

text \<open>
  The file written: header, colour table and \<open>dataSize\<close> pixel bytes, one after the
  other.
\<close>

definition bmp8_saveImage :: "t_bmp8 \<Rightarrow> byte list outcome" where
  "bmp8_saveImage img =
     (case data8 img of
        None \<Rightarrow> Undefined
      | Some d \<Rightarrow>
          if length (header8 img) = 54 \<and> length (colorTable img) = 1024
             \<and> unat (dataSize img) \<le> length d
          then Returns (header8 img @ colorTable img @ take (unat (dataSize img)) d)
          else Undefined)"

section \<open>24-bit codec\<close>

subsection \<open>\<^verbatim>\<open>file_rawRead\<close>, \<^verbatim>\<open>file_rawWrite\<close>\<close>

text \<open>
  On a short read \<^verbatim>\<open>file_rawRead\<close> prints a diagnostic and returns with the buffer not
  filled. Its callers pass uninitialised structs, whose content is then indeterminate:
  the model stops there.
\<close>

definition file_rawRead :: "nat \<Rightarrow> nat \<Rightarrow> byte list \<Rightarrow> byte list outcome" where
  "file_rawRead position n file =
     (let buffer = fread_at position n file
      in if length buffer = n then Returns buffer else Undefined)"

definition file_rawWrite :: "nat \<Rightarrow> byte list \<Rightarrow> byte list \<Rightarrow> byte list" where
  "file_rawWrite position buffer file = fwrite_at position buffer file"

subsection \<open>The packed structs \<^verbatim>\<open>t_bmp_header\<close> (14 bytes) and \<^verbatim>\<open>t_bmp_info\<close> (40 bytes) in memory\<close>

definition decode_header :: "byte list \<Rightarrow> t_bmp_header" where
  "decode_header b =
     \<lparr>hdr_type = read_u16 b 0, hdr_size = read_u32 b 2, hdr_reserved1 = read_u16 b 6,
      hdr_reserved2 = read_u16 b 8, hdr_offset = read_u32 b 10\<rparr>"

definition encode_header :: "t_bmp_header \<Rightarrow> byte list" where
  "encode_header h =
     encode_u16 (hdr_type h) @ encode_u32 (hdr_size h) @ encode_u16 (hdr_reserved1 h)
     @ encode_u16 (hdr_reserved2 h) @ encode_u32 (hdr_offset h)"

definition decode_info :: "byte list \<Rightarrow> t_bmp_info" where
  "decode_info b =
     \<lparr>info_size = read_u32 b 0, info_width = read_u32 b 4, info_height = read_u32 b 8,
      info_planes = read_u16 b 12, info_bits = read_u16 b 14, info_compression = read_u32 b 16,
      info_imagesize = read_u32 b 20, info_xresolution = read_u32 b 24,
      info_yresolution = read_u32 b 28, info_ncolors = read_u32 b 32,
      info_importantcolors = read_u32 b 36\<rparr>"

definition encode_info :: "t_bmp_info \<Rightarrow> byte list" where
  "encode_info i =
     encode_u32 (info_size i) @ encode_u32 (info_width i) @ encode_u32 (info_height i)
     @ encode_u16 (info_planes i) @ encode_u16 (info_bits i) @ encode_u32 (info_compression i)
     @ encode_u32 (info_imagesize i) @ encode_u32 (info_xresolution i)
     @ encode_u32 (info_yresolution i) @ encode_u32 (info_ncolors i)
     @ encode_u32 (info_importantcolors i)"

subsection \<open>\<^verbatim>\<open>bmp24_allocateDataPixels\<close>, \<^verbatim>\<open>bmp24_allocate\<close>\<close>

text \<open>Pixel \<open>i\<close> of a fresh block of pixels: three bytes of whatever the block holds.\<close>

definition junk_pixel :: "heap \<Rightarrow> nat \<Rightarrow> t_pixel" where
  "junk_pixel hp i = \<lparr>blue = junk hp (3 * i), green = junk hp (3 * i + 1), red = junk hp (3 * i + 2)\<rparr>"

text \<open>
  The row pointers take \<open>height * sizeof(t_pixel *)\<close> bytes, the pixel block
  \<open>width * height * sizeof(t_pixel)\<close> bytes, where \<open>width * height\<close> is an \<^verbatim>\<open>int\<close>
  product. The \<^verbatim>\<open>memset\<close> of the block is commented out in the source.
\<close>

definition bmp24_allocateDataPixels :: "heap \<Rightarrow> int \<Rightarrow> int \<Rightarrow> t_pixel list list option outcome" where
  "bmp24_allocateDataPixels hp w h =
     (if w \<le> 0 \<or> h \<le> 0 then Returns None
      else if \<not> can_alloc hp (nat h * 8) then Returns None
      else if w * h > INT_MAX then Undefined
      else if \<not> can_alloc hp (nat (w * h) * 3) then Returns None
      else Returns (Some (map (\<lambda>y. map (\<lambda>x. junk_pixel hp (y * nat w + x)) [0..<nat w])
                              [0..<nat h])))"

text \<open>
  \<^verbatim>\<open>((width * sizeof(t_pixel) * 8 + 31) / 32) * 4\<close>, computed in \<^verbatim>\<open>size_t\<close> and stored in a
  \<^verbatim>\<open>uint32_t\<close>.
\<close>

definition padded_row_size :: "int \<Rightarrow> u32" where
  "padded_row_size w = ucast ((((word_of_int w :: u64) * 3 * 8 + 31) div 32) * 4)"

definition bmp24_allocate :: "heap \<Rightarrow> int \<Rightarrow> int \<Rightarrow> t_bmp24 option outcome" where
  "bmp24_allocate hp w h =
     (if \<not> can_alloc hp sizeof_t_bmp24 then Returns None
      else
        case bmp24_allocateDataPixels hp w h of
          Undefined \<Rightarrow> Undefined
        | Returns None \<Rightarrow> Returns None
        | Returns (Some pixels) \<Rightarrow>
            let row_size = padded_row_size w;
                imagesize = row_size * word_of_int \<bar>h\<bar>
            in Returns (Some
                 \<lparr>header = \<lparr>hdr_type = 0x4D42, hdr_size = 54 + imagesize, hdr_reserved1 = 0,
                             hdr_reserved2 = 0, hdr_offset = 54\<rparr>,
                  header_info = \<lparr>info_size = 40, info_width = word_of_int w,
                                  info_height = word_of_int h, info_planes = 1, info_bits = 24,
                                  info_compression = 0, info_imagesize = imagesize,
                                  info_xresolution = 0, info_yresolution = 0, info_ncolors = 0,
                                  info_importantcolors = 0\<rparr>,
                  width = w, height = h, colorDepth = 24, data = Some pixels\<rparr>))"

subsection \<open>Rows of pixels as bytes\<close>

fun pixels_to_bytes :: "t_pixel list \<Rightarrow> byte list" where
  "pixels_to_bytes [] = []"
| "pixels_to_bytes (p # ps) = blue p # green p # red p # pixels_to_bytes ps"

fun bytes_to_pixels :: "byte list \<Rightarrow> t_pixel list" where
  "bytes_to_pixels (b # g # r # rest) = \<lparr>blue = b, green = g, red = r\<rparr> # bytes_to_pixels rest"
| "bytes_to_pixels rest = []"

text \<open>
  \<^verbatim>\<open>memcpy(row, buf, n)\<close> into a row of pixels and \<^verbatim>\<open>memcpy(buf, row, n)\<close> out of it. Bytes
  beyond the row are outside the model.
\<close>

definition memcpy_to_row :: "t_pixel list \<Rightarrow> byte list \<Rightarrow> t_pixel list outcome" where
  "memcpy_to_row row buf =
     (if length buf \<le> 3 * length row
      then Returns (bytes_to_pixels (buf @ drop (length buf) (pixels_to_bytes row)))
      else Undefined)"

definition memcpy_from_row :: "t_pixel list \<Rightarrow> nat \<Rightarrow> byte list outcome" where
  "memcpy_from_row row n =
     (if n \<le> 3 * length row then Returns (take n (pixels_to_bytes row)) else Undefined)"

subsection \<open>\<^verbatim>\<open>bmp24_readPixelData\<close>\<close>

text \<open>
  The loop over \<open>y = height - 1, \<dots>, 0\<close>: each turn reads one padded row from the stream
  and copies its unpadded part into row \<open>y\<close>. A short read ends the function; the rows
  not yet read keep what they held.
\<close>

fun read_rows ::
  "nat \<Rightarrow> nat \<Rightarrow> nat list \<Rightarrow> byte list \<Rightarrow> t_pixel list list \<Rightarrow> t_pixel list list outcome" where
  "read_rows unpadded padded [] stream d = Returns d"
| "read_rows unpadded padded (y # ys) stream d =
     (let row_buffer = take padded stream in
      if length row_buffer \<noteq> padded then Returns d
      else if y < length d \<and> unpadded \<le> padded then
        (case memcpy_to_row (d ! y) (take unpadded row_buffer) of
           Undefined \<Rightarrow> Undefined
         | Returns row \<Rightarrow> read_rows unpadded padded ys (drop padded stream) (d[y := row]))
      else Undefined)"

definition bmp24_readPixelData :: "heap \<Rightarrow> t_bmp24 \<Rightarrow> byte list \<Rightarrow> t_bmp24 outcome" where
  "bmp24_readPixelData hp img file =
     (case data img of
        None \<Rightarrow> Returns img
      | Some d \<Rightarrow>
          let w = width img;
              h = height img;
              offset = hdr_offset (header img);
              bpp = uint (info_bits (header_info img)) div 8;
              bytes_per_pixel = (if bpp \<noteq> 3 then 3 else bpp)
          in
          if w * bytes_per_pixel > INT_MAX \<or> w * bytes_per_pixel < INT_MIN then Undefined
          else
            let row_size_unpadded = (word_of_int (w * bytes_per_pixel) :: u32);
                padding = (4 - row_size_unpadded mod 4) mod 4;
                row_size_padded = row_size_unpadded + padding
            in
            if \<not> can_alloc hp (unat row_size_padded) then Returns img
            else
              case read_rows (unat row_size_unpadded) (unat row_size_padded) (rev [0..<nat h])
                     (drop (unat offset) file) d of
                Undefined \<Rightarrow> Undefined
              | Returns d' \<Rightarrow> Returns (img\<lparr>data := Some d'\<rparr>))"

subsection \<open>\<^verbatim>\<open>bmp24_writePixelData\<close>\<close>

text \<open>
  The loop over \<open>y = height - 1, \<dots>, 0\<close>: each turn copies row \<open>y\<close> to the start of the
  zeroed row buffer and writes the buffer. The result is the sequence of bytes written.
\<close>

fun write_rows :: "nat \<Rightarrow> nat \<Rightarrow> nat list \<Rightarrow> t_pixel list list \<Rightarrow> byte list outcome" where
  "write_rows unpadded padded [] d = Returns []"
| "write_rows unpadded padded (y # ys) d =
     (if y < length d \<and> unpadded \<le> padded then
        (case memcpy_from_row (d ! y) unpadded of
           Undefined \<Rightarrow> Undefined
         | Returns bytes \<Rightarrow>
             (case write_rows unpadded padded ys d of
                Undefined \<Rightarrow> Undefined
              | Returns rest \<Rightarrow> Returns (bytes @ replicate (padded - unpadded) 0 @ rest)))
      else Undefined)"

definition bmp24_writePixelData :: "heap \<Rightarrow> t_bmp24 \<Rightarrow> byte list \<Rightarrow> byte list outcome" where
  "bmp24_writePixelData hp img file =
     (case data img of
        None \<Rightarrow> Returns file
      | Some d \<Rightarrow>
          let w = width img;
              h = height img;
              offset = hdr_offset (header img);
              bytes_per_pixel = 3
          in
          if w * bytes_per_pixel > INT_MAX \<or> w * bytes_per_pixel < INT_MIN then Undefined
          else
            let row_size_unpadded = (word_of_int (w * bytes_per_pixel) :: u32);
                padding = (4 - row_size_unpadded mod 4) mod 4;
                row_size_padded = row_size_unpadded + padding
            in
            if \<not> can_alloc hp (unat row_size_padded) then Returns file
            else
              case write_rows (unat row_size_unpadded) (unat row_size_padded) (rev [0..<nat h]) d of
                Undefined \<Rightarrow> Undefined
              | Returns bytes \<Rightarrow> Returns (fwrite_at (unat offset) bytes file))"

subsection \<open>\<^verbatim>\<open>bmp24_loadImage\<close>\<close>

definition bmp24_loadImage :: "heap \<Rightarrow> byte list option \<Rightarrow> (error + t_bmp24) outcome" where
  "bmp24_loadImage hp file =
     (case file of
        None \<Rightarrow> Returns (Inl OpenError)
      | Some f \<Rightarrow>
          (case file_rawRead 0 14 f of
             Undefined \<Rightarrow> Undefined
           | Returns hb \<Rightarrow>
               let hdr = decode_header hb in
               if hdr_type hdr \<noteq> 0x4D42 then Returns (Inl BadSignature)
               else
                 (case file_rawRead 14 40 f of
                    Undefined \<Rightarrow> Undefined
                  | Returns ib \<Rightarrow>
                      let info = decode_info ib in
                      if info_bits info \<noteq> 24 then Returns (Inl UnsupportedDepth)
                      else if info_compression info \<noteq> 0 then Returns (Inl UnsupportedCompression)
                      else if sint (info_height info) = INT_MIN then Undefined
                      else
                        let w = sint (info_width info);
                            h = \<bar>sint (info_height info)\<bar>
                        in
                        if w \<le> 0 \<or> h \<le> 0 then Returns (Inl InvalidDimensions)
                        else
                          (case bmp24_allocate hp w h of
                             Undefined \<Rightarrow> Undefined
                           | Returns None \<Rightarrow> Returns (Inl AllocationFailure)
                           | Returns (Some img) \<Rightarrow>
                               (case bmp24_readPixelData hp
                                       (img\<lparr>header := hdr, header_info := info, width := w,
                                            height := h, colorDepth := uint (info_bits info)\<rparr>) f of
                                  Undefined \<Rightarrow> Undefined
                                | Returns img' \<Rightarrow> Returns (Inr img'))))))"

subsection \<open>\<^verbatim>\<open>bmp24_saveImage\<close>\<close>

text \<open>
  The result is the file written together with the image, whose header fields the
  function overwrites before writing.
\<close>

definition bmp24_saveImage :: "heap \<Rightarrow> t_bmp24 \<Rightarrow> (byte list \<times> t_bmp24) outcome" where
  "bmp24_saveImage hp img =
     (if height img = INT_MIN then Undefined
      else
        let row_size = padded_row_size (width img);
            imagesize = row_size * word_of_int \<bar>height img\<bar>;
            hdr = (header img)\<lparr>hdr_type := 0x4D42, hdr_offset := 54, hdr_size := 54 + imagesize,
                                hdr_reserved1 := 0, hdr_reserved2 := 0\<rparr>;
            info = (header_info img)\<lparr>info_size := 40, info_width := word_of_int (width img),
                     info_height := word_of_int (height img), info_planes := 1, info_bits := 24,
                     info_compression := 0, info_imagesize := imagesize, info_xresolution := 0,
                     info_yresolution := 0, info_ncolors := 0, info_importantcolors := 0\<rparr>;
            img' = img\<lparr>header := hdr, header_info := info\<rparr>;
            file1 = file_rawWrite 0 (encode_header hdr) [];
            file2 = file_rawWrite 14 (encode_info info) file1
        in case bmp24_writePixelData hp img' file2 of
             Undefined \<Rightarrow> Undefined
           | Returns file3 \<Rightarrow> Returns (file3, img'))"

subsection \<open>The layout of a 24-bit BMP file\<close>

text \<open>
  The layout as the specification describes it: the file header in bytes 0 to 13, the info
  header in bytes 14 to 53, the pixel rows from the recorded offset on, each row of
  \<open>3 * width\<close> bytes padded to a multiple of 4 bytes. A negative height field says that
  the rows are stored top-down, a positive one that they are stored bottom-up.
\<close>

definition file_header :: "byte list \<Rightarrow> t_bmp_header" where
  "file_header f = decode_header (fread_at 0 14 f)"

definition file_info :: "byte list \<Rightarrow> t_bmp_info" where
  "file_info f = decode_info (fread_at 14 40 f)"

definition file_width :: "byte list \<Rightarrow> int" where
  "file_width f = sint (info_width (file_info f))"

definition file_height :: "byte list \<Rightarrow> int" where
  "file_height f = sint (info_height (file_info f))"

definition row_bytes :: "int \<Rightarrow> nat" where
  "row_bytes w = 4 * ((3 * nat w + 3) div 4)"

definition stored_row :: "byte list \<Rightarrow> nat \<Rightarrow> t_pixel list" where
  "stored_row f k =
     bytes_to_pixels
       (take (3 * nat (file_width f))
          (drop (unat (hdr_offset (file_header f)) + k * row_bytes (file_width f)) f))"

definition topmost_image_row :: "byte list \<Rightarrow> t_pixel list" where
  "topmost_image_row f =
     (if file_height f < 0 then stored_row f 0
      else stored_row f (nat (file_height f) - 1))"

text \<open>
  A file that \<^verbatim>\<open>bmp24_loadImage\<close> accepts and reads to the end: both headers are present
  and pass the checks, the dimensions are positive and their products stay in the range
  of \<^verbatim>\<open>int\<close>, the allocations succeed, and all rows are present.
\<close>

definition loadable24 :: "heap \<Rightarrow> byte list \<Rightarrow> bool" where
  "loadable24 hp f \<longleftrightarrow>
     54 \<le> length f
     \<and> hdr_type (file_header f) = 0x4D42
     \<and> info_bits (file_info f) = 24
     \<and> info_compression (file_info f) = 0
     \<and> file_height f \<noteq> INT_MIN
     \<and> 0 < file_width f \<and> file_height f \<noteq> 0
     \<and> file_width f * \<bar>file_height f\<bar> \<le> INT_MAX
     \<and> file_width f * 3 \<le> INT_MAX
     \<and> can_alloc hp sizeof_t_bmp24
     \<and> can_alloc hp (nat \<bar>file_height f\<bar> * 8)
     \<and> can_alloc hp (nat (file_width f * \<bar>file_height f\<bar>) * 3)
     \<and> can_alloc hp (row_bytes (file_width f))
     \<and> unat (hdr_offset (file_header f)) + nat \<bar>file_height f\<bar> * row_bytes (file_width f)
         \<le> length f"

subsection \<open>Files that a save reproduces\<close>

text \<open>
  An 8-bit file whose pixel data starts right after the colour table, at offset
  \<open>54 + 1024\<close>, and ends with the file.
\<close>

definition canonical8 :: "heap \<Rightarrow> byte list \<Rightarrow> bool" where
  "canonical8 hp f \<longleftrightarrow>
     1078 \<le> length f
     \<and> f ! 0 = 0x42 \<and> f ! 1 = 0x4D
     \<and> read_u16 f 28 = 8
     \<and> read_u32 f 10 = 1078
     \<and> length f = 1078 + unat (if read_u32 f 34 = 0 then read_u32 f 18 * read_u32 f 22
                                else read_u32 f 34)
     \<and> can_alloc hp sizeof_t_bmp8
     \<and> can_alloc hp (unat (if read_u32 f 34 = 0 then read_u32 f 18 * read_u32 f 22
                             else read_u32 f 34))"

text \<open>
  A 24-bit file whose header fields already have the values that \<^verbatim>\<open>bmp24_saveImage\<close>
  writes, whose padding bytes are zero, and which ends with its last row.
\<close>

definition canonical24 :: "heap \<Rightarrow> byte list \<Rightarrow> bool" where
  "canonical24 hp f \<longleftrightarrow>
     loadable24 hp f
     \<and> 0 < file_height f
     \<and> hdr_offset (file_header f) = 54
     \<and> hdr_size (file_header f) = 54 + info_imagesize (file_info f)
     \<and> hdr_reserved1 (file_header f) = 0 \<and> hdr_reserved2 (file_header f) = 0
     \<and> info_size (file_info f) = 40
     \<and> info_planes (file_info f) = 1
     \<and> info_imagesize (file_info f) = of_nat (row_bytes (file_width f) * nat (file_height f))
     \<and> info_xresolution (file_info f) = 0 \<and> info_yresolution (file_info f) = 0
     \<and> info_ncolors (file_info f) = 0 \<and> info_importantcolors (file_info f) = 0
     \<and> length f = 54 + nat (file_height f) * row_bytes (file_width f)
     \<and> list_all
          (\<lambda>k. drop (3 * nat (file_width f))
                 (take (row_bytes (file_width f)) (drop (54 + k * row_bytes (file_width f)) f))
               = replicate (row_bytes (file_width f) - 3 * nat (file_width f)) 0)
          [0..<nat (file_height f)]"

section \<open>Floating point\<close>

text \<open>
  A \<^verbatim>\<open>float\<close> or \<^verbatim>\<open>double\<close> value is the real number it denotes. Every floating-point
  operation of the source yields the exact result rounded to the format: by \<open>rndf\<close> for
  \<^verbatim>\<open>float\<close>, by \<open>rndd\<close> for \<^verbatim>\<open>double\<close>. The two rounding functions are parameters of the
  model. Integers below \<open>2^24\<close> convert to \<^verbatim>\<open>float\<close> and integers below \<open>2^53\<close> convert to
  \<^verbatim>\<open>double\<close> without rounding. Infinities and NaN are not represented; converting a
  value outside the range of the target integer type has no defined behaviour.
\<close>

record fp =
  rndf :: "real \<Rightarrow> real"
  rndd :: "real \<Rightarrow> real"

text \<open>\<^verbatim>\<open>round\<close> and \<^verbatim>\<open>roundf\<close>: to the nearest integer, halfway cases away from zero.\<close>

definition c_round :: "real \<Rightarrow> int" where
  "c_round x = (if x \<ge> 0 then \<lfloor>x + 1 / 2\<rfloor> else \<lceil>x - 1 / 2\<rceil>)"

text \<open>The conversion \<^verbatim>\<open>(int)x\<close> of a floating-point value: truncation towards zero.\<close>

definition c_trunc :: "real \<Rightarrow> int" where
  "c_trunc x = (if x \<ge> 0 then \<lfloor>x\<rfloor> else \<lceil>x\<rceil>)"

section \<open>Convolution filters\<close>

text \<open>
  A kernel is a matrix of \<^verbatim>\<open>float\<close> weights, \<^verbatim>\<open>kernel[i][j]\<close>; \<open>None\<close> is the \<^verbatim>\<open>NULL\<close> kernel.
  The double loop over \<open>ky\<close> and \<open>kx\<close> from \<open>-kernelRadius\<close> to \<open>kernelRadius\<close> visits the
  offsets in the order of \<open>kernel_offsets\<close>.
\<close>

definition kernel_offsets :: "int \<Rightarrow> (int \<times> int) list" where
  "kernel_offsets kernelRadius =
     concat (map (\<lambda>ky. map (\<lambda>kx. (ky, kx)) [- kernelRadius..kernelRadius])
                 [- kernelRadius..kernelRadius])"

definition kernel_at :: "real list list \<Rightarrow> int \<Rightarrow> int \<Rightarrow> real outcome" where
  "kernel_at kern i j =
     (if 0 \<le> i \<and> nat i < length kern \<and> 0 \<le> j \<and> nat j < length (kern ! nat i)
      then Returns (kern ! nat i ! nat j)
      else Undefined)"

text \<open>\<^verbatim>\<open>clamp((int)(sum + 0.5f))\<close> to the range of a byte.\<close>

definition round_clamp :: "fp \<Rightarrow> real \<Rightarrow> byte outcome" where
  "round_clamp fl sum_f =
     (let v = c_trunc (rndf fl (sum_f + 1 / 2))
      in if INT_MIN \<le> v \<and> v \<le> INT_MAX then Returns (clamp_u8 v) else Undefined)"

subsection \<open>\<^verbatim>\<open>bmp8_applyFilter\<close>\<close>

text \<open>
  The weighted sum for the pixel \<open>(x, y)\<close>. The index
  \<^verbatim>\<open>(y + ky) * width + (x + kx)\<close> is computed in \<^verbatim>\<open>unsigned int\<close>.
\<close>

fun filter8_sum ::
  "fp \<Rightarrow> byte list \<Rightarrow> u32 \<Rightarrow> real list list \<Rightarrow> int \<Rightarrow> u32 \<Rightarrow> u32 \<Rightarrow> (int \<times> int) list \<Rightarrow> real
     \<Rightarrow> real outcome" where
  "filter8_sum fl originalData w kern kernelRadius y x [] sum_f = Returns sum_f"
| "filter8_sum fl originalData w kern kernelRadius y x ((ky, kx) # rest) sum_f =
     (let i = unat ((y + word_of_int ky) * w + (x + word_of_int kx)) in
      if i < length originalData then
        (case kernel_at kern (ky + kernelRadius) (kx + kernelRadius) of
           Undefined \<Rightarrow> Undefined
         | Returns k \<Rightarrow>
             filter8_sum fl originalData w kern kernelRadius y x rest
               (rndf fl (sum_f + rndf fl (real (unat (originalData ! i)) * k))))
      else Undefined)"

text \<open>The loop over the pixels \<open>(y, x)\<close>, each turn writing \<^verbatim>\<open>img->data[y * width + x]\<close>.\<close>

fun filter8_loop ::
  "fp \<Rightarrow> byte list \<Rightarrow> u32 \<Rightarrow> real list list \<Rightarrow> int \<Rightarrow> (nat \<times> nat) list \<Rightarrow> byte list
     \<Rightarrow> byte list outcome" where
  "filter8_loop fl originalData w kern kernelRadius [] d = Returns d"
| "filter8_loop fl originalData w kern kernelRadius ((y, x) # rest) d =
     (case filter8_sum fl originalData w kern kernelRadius (of_nat y) (of_nat x)
             (kernel_offsets kernelRadius) 0 of
        Undefined \<Rightarrow> Undefined
      | Returns sum_f \<Rightarrow>
          (case round_clamp fl sum_f of
             Undefined \<Rightarrow> Undefined
           | Returns pixelValue \<Rightarrow>
               (let i = unat ((of_nat y :: u32) * w + of_nat x) in
                if i < length d
                then filter8_loop fl originalData w kern kernelRadius rest (d[i := pixelValue])
                else Undefined)))"

text \<open>
  The pixels visited: \<open>y\<close> from \<open>kernelRadius\<close> up to, and not including,
  \<open>height - kernelRadius\<close>, and likewise \<open>x\<close>, both bounds in \<^verbatim>\<open>unsigned int\<close>.
\<close>

definition filter8_pixels :: "u32 \<Rightarrow> u32 \<Rightarrow> int \<Rightarrow> (nat \<times> nat) list" where
  "filter8_pixels w h kernelRadius =
     concat (map (\<lambda>y. map (\<lambda>x. (y, x))
                          [unat (word_of_int kernelRadius :: u32)..<unat (w - word_of_int kernelRadius)])
                 [unat (word_of_int kernelRadius :: u32)..<unat (h - word_of_int kernelRadius)])"

definition bmp8_applyFilter ::
  "fp \<Rightarrow> heap \<Rightarrow> t_bmp8 \<Rightarrow> real list list option \<Rightarrow> int \<Rightarrow> t_bmp8 outcome" where
  "bmp8_applyFilter fl hp img kern kernelSize =
     (case data8 img of
        None \<Rightarrow> Returns img
      | Some d \<Rightarrow>
          (case kern of
             None \<Rightarrow> Returns img
           | Some k \<Rightarrow>
               if kernelSize \<le> 0 \<or> kernelSize mod 2 = 0 then Returns img
               else if \<not> can_alloc hp (unat (dataSize img)) then Returns img
               else if length d < unat (dataSize img) then Undefined
               else
                 let originalData = take (unat (dataSize img)) d;
                     kernelRadius = kernelSize div 2
                 in case filter8_loop fl originalData (width8 img) k kernelRadius
                           (filter8_pixels (width8 img) (height8 img) kernelRadius) d of
                      Undefined \<Rightarrow> Undefined
                    | Returns d' \<Rightarrow> Returns (img\<lparr>data8 := Some d'\<rparr>)))"

subsection \<open>\<^verbatim>\<open>bmp24_convolution\<close>\<close>

text \<open>The two tests that bring a neighbour coordinate into \<open>0, \<dots>, limit - 1\<close>.\<close>

definition clamp_coord :: "int \<Rightarrow> int \<Rightarrow> int" where
  "clamp_coord n limit =
     (let c = (if n < 0 then 0 else n) in if c \<ge> limit then limit - 1 else c)"

text \<open>The clamped coordinates \<open>(clamped_ny, clamped_nx)\<close> of the neighbour at offset \<open>(ky, kx)\<close>.\<close>

definition neighbor :: "t_bmp24 \<Rightarrow> int \<Rightarrow> int \<Rightarrow> int \<times> int \<Rightarrow> int \<times> int" where
  "neighbor img x y off =
     (clamp_coord (y + fst off) (height img), clamp_coord (x + snd off) (width img))"

definition pixel_at :: "t_pixel list list \<Rightarrow> int \<times> int \<Rightarrow> t_pixel outcome" where
  "pixel_at rows c =
     (if 0 \<le> fst c \<and> nat (fst c) < length rows
         \<and> 0 \<le> snd c \<and> nat (snd c) < length (rows ! nat (fst c))
      then Returns (rows ! nat (fst c) ! nat (snd c))
      else Undefined)"

fun convolution_sums ::
  "fp \<Rightarrow> t_bmp24 \<Rightarrow> int \<Rightarrow> int \<Rightarrow> real list list \<Rightarrow> int \<Rightarrow> t_pixel list list \<Rightarrow> (int \<times> int) list
     \<Rightarrow> real \<times> real \<times> real \<Rightarrow> (real \<times> real \<times> real) outcome" where
  "convolution_sums fl img x y kern kernelRadius original_data [] acc = Returns acc"
| "convolution_sums fl img x y kern kernelRadius original_data (off # rest) (sum_r, sum_g, sum_b) =
     (if y + fst off < INT_MIN \<or> INT_MAX < y + fst off
         \<or> x + snd off < INT_MIN \<or> INT_MAX < x + snd off
      then Undefined
      else
        case kernel_at kern (fst off + kernelRadius) (snd off + kernelRadius) of
          Undefined \<Rightarrow> Undefined
        | Returns k \<Rightarrow>
            (case pixel_at original_data (neighbor img x y off) of
               Undefined \<Rightarrow> Undefined
             | Returns neighbor_pixel \<Rightarrow>
                 convolution_sums fl img x y kern kernelRadius original_data rest
                   (rndf fl (sum_r + rndf fl (real (unat (red neighbor_pixel)) * k)),
                    rndf fl (sum_g + rndf fl (real (unat (green neighbor_pixel)) * k)),
                    rndf fl (sum_b + rndf fl (real (unat (blue neighbor_pixel)) * k)))))"

text \<open>\<^verbatim>\<open>kernelSize / 2\<close> truncates towards zero.\<close>

definition c_div2 :: "int \<Rightarrow> int" where
  "c_div2 n = (if n \<ge> 0 then n div 2 else - ((- n) div 2))"

definition bmp24_convolution ::
  "fp \<Rightarrow> t_bmp24 \<Rightarrow> int \<Rightarrow> int \<Rightarrow> real list list \<Rightarrow> int \<Rightarrow> t_pixel list list option
     \<Rightarrow> t_pixel outcome" where
  "bmp24_convolution fl img x y kern kernelSize original_data =
     (case original_data of
        None \<Rightarrow> Returns \<lparr>blue = 0, green = 0, red = 0\<rparr>
      | Some orig \<Rightarrow>
          (case convolution_sums fl img x y kern (c_div2 kernelSize) orig
                  (kernel_offsets (c_div2 kernelSize)) (0, 0, 0) of
             Undefined \<Rightarrow> Undefined
           | Returns (sum_r, sum_g, sum_b) \<Rightarrow>
               (case round_clamp fl sum_r of
                  Undefined \<Rightarrow> Undefined
                | Returns r \<Rightarrow>
                    (case round_clamp fl sum_g of
                       Undefined \<Rightarrow> Undefined
                     | Returns g \<Rightarrow>
                         (case round_clamp fl sum_b of
                            Undefined \<Rightarrow> Undefined
                          | Returns b \<Rightarrow> Returns \<lparr>blue = b, green = g, red = r\<rparr>)))))"

subsection \<open>\<^verbatim>\<open>bmp24_applyFilter\<close>\<close>

text \<open>The copy of the first \<open>width\<close> pixels of each of the first \<open>height\<close> rows.\<close>

definition snapshot :: "int \<Rightarrow> int \<Rightarrow> t_pixel list list \<Rightarrow> t_pixel list list outcome" where
  "snapshot w h d =
     (if nat h \<le> length d \<and> list_all (\<lambda>row. nat w \<le> length row) (take (nat h) d)
      then Returns (map (take (nat w)) (take (nat h) d))
      else Undefined)"

text \<open>The loop over the pixels \<open>(y, x)\<close>, each turn writing \<^verbatim>\<open>img->data[y][x]\<close>.\<close>

fun filter24_loop ::
  "fp \<Rightarrow> t_bmp24 \<Rightarrow> real list list \<Rightarrow> int \<Rightarrow> t_pixel list list \<Rightarrow> (nat \<times> nat) list
     \<Rightarrow> t_pixel list list \<Rightarrow> t_pixel list list outcome" where
  "filter24_loop fl img kern kernelSize original_data [] d = Returns d"
| "filter24_loop fl img kern kernelSize original_data ((y, x) # rest) d =
     (case bmp24_convolution fl img (int x) (int y) kern kernelSize (Some original_data) of
        Undefined \<Rightarrow> Undefined
      | Returns p \<Rightarrow>
          if y < length d \<and> x < length (d ! y)
          then filter24_loop fl img kern kernelSize original_data rest (d[y := (d ! y)[x := p]])
          else Undefined)"

definition all_pixels :: "int \<Rightarrow> int \<Rightarrow> (nat \<times> nat) list" where
  "all_pixels w h = concat (map (\<lambda>y. map (\<lambda>x. (y, x)) [0..<nat w]) [0..<nat h])"

definition bmp24_applyFilter ::
  "fp \<Rightarrow> heap \<Rightarrow> t_bmp24 \<Rightarrow> real list list option \<Rightarrow> int \<Rightarrow> t_bmp24 outcome" where
  "bmp24_applyFilter fl hp img kern kernelSize =
     (case data img of
        None \<Rightarrow> Returns img
      | Some d \<Rightarrow>
          (case kern of
             None \<Rightarrow> Returns img
           | Some k \<Rightarrow>
               if kernelSize \<le> 0 \<or> kernelSize mod 2 = 0 then Returns img
               else
                 (case bmp24_allocateDataPixels hp (width img) (height img) of
                    Undefined \<Rightarrow> Undefined
                  | Returns None \<Rightarrow> Returns img
                  | Returns (Some fresh) \<Rightarrow>
                      (case snapshot (width img) (height img) d of
                         Undefined \<Rightarrow> Undefined
                       | Returns original_data \<Rightarrow>
                           (case filter24_loop fl img k kernelSize original_data
                                   (all_pixels (width img) (height img)) d of
                              Undefined \<Rightarrow> Undefined
                            | Returns d' \<Rightarrow> Returns (img\<lparr>data := Some d'\<rparr>))))))"

subsection \<open>\<^verbatim>\<open>bmp24_grayscale\<close>\<close>

definition gray_pixel :: "fp \<Rightarrow> t_pixel \<Rightarrow> t_pixel outcome" where
  "gray_pixel fl p =
     (let gray_f = rndf fl (rndf fl (rndf fl (rndf fl (299 / 1000) * real (unat (red p)))
                                   + rndf fl (rndf fl (587 / 1000) * real (unat (green p))))
                          + rndf fl (rndf fl (114 / 1000) * real (unat (blue p))))
      in case round_clamp fl gray_f of
           Undefined \<Rightarrow> Undefined
         | Returns gray \<Rightarrow> Returns (p\<lparr>red := gray, green := gray, blue := gray\<rparr>))"

definition bmp24_grayscale :: "fp \<Rightarrow> t_bmp24 \<Rightarrow> t_bmp24 outcome" where
  "bmp24_grayscale fl img =
     (case data img of
        None \<Rightarrow> Returns img
      | Some d \<Rightarrow>
          (case for_each_pixel (width img) (height img) (gray_pixel fl) d of
             Undefined \<Rightarrow> Undefined
           | Returns d' \<Rightarrow> Returns (img\<lparr>data := Some d'\<rparr>)))"

section \<open>Histogram equalization of 8-bit images\<close>

subsection \<open>\<^verbatim>\<open>bmp8_computeHistogram\<close>\<close>

fun count_bytes :: "byte list \<Rightarrow> u32 list \<Rightarrow> u32 list" where
  "count_bytes [] hist = hist"
| "count_bytes (b # bs) hist = count_bytes bs (hist[unat b := hist ! unat b + 1])"

definition bmp8_computeHistogram :: "heap \<Rightarrow> t_bmp8 \<Rightarrow> u32 list option outcome" where
  "bmp8_computeHistogram hp img =
     (case data8 img of
        None \<Rightarrow> Returns None
      | Some d \<Rightarrow>
          if \<not> can_alloc hp (256 * 4) then Returns None
          else if unat (dataSize img) \<le> length d
          then Returns (Some (count_bytes (take (unat (dataSize img)) d) (replicate 256 0)))
          else Undefined)"

subsection \<open>\<^verbatim>\<open>bmp8_computeEqualizedHistogram\<close>\<close>

text \<open>
  The cumulative histogram is computed in \<^verbatim>\<open>unsigned long long\<close>; the sum of 256 values
  below \<open>2^32\<close> does not wrap around, so the sums are natural numbers.
\<close>

fun cumulative :: "nat \<Rightarrow> u32 list \<Rightarrow> nat list" where
  "cumulative acc [] = []"
| "cumulative acc (h # hs) = (acc + unat h) # cumulative (acc + unat h) hs"

fun first_nonzero :: "nat list \<Rightarrow> nat" where
  "first_nonzero [] = 0"
| "first_nonzero (c # cs) = (if c > 0 then c else first_nonzero cs)"

text \<open>
  One entry of the table: \<^verbatim>\<open>(unsigned int)round(numerator * scale_factor)\<close>, clamped to
  255. (The store of 0 for \<^verbatim>\<open>cdf[i] == 0\<close> that precedes it in the source is overwritten
  by this assignment.)
\<close>

definition equalized_entry :: "fp \<Rightarrow> nat \<Rightarrow> real \<Rightarrow> nat \<Rightarrow> u32 outcome" where
  "equalized_entry fl cdfmin scale_factor c =
     (let numerator = (if c \<ge> cdfmin then c - cdfmin else 0);
          r = c_round (rndd fl (real numerator * scale_factor))
      in if 0 \<le> r \<and> r < 2 ^ 32
         then Returns (if r > 255 then 255 else word_of_int r)
         else Undefined)"

definition bmp8_computeEqualizedHistogram ::
  "fp \<Rightarrow> heap \<Rightarrow> u32 list \<Rightarrow> u32 \<Rightarrow> u32 list option outcome" where
  "bmp8_computeEqualizedHistogram fl hp hist numPixels =
     (if numPixels = 0 then Returns None
      else if \<not> can_alloc hp (256 * 4) then Returns None
      else if \<not> can_alloc hp (256 * 8) then Returns None
      else if length hist < 256 then Undefined
      else
        let cdf = cumulative 0 (take 256 hist);
            cdfmin = first_nonzero cdf;
            denominator = rndd fl (real (unat numPixels) - real cdfmin)
        in
        if denominator \<le> 0 then Returns (Some (map of_nat [0..<256]))
        else
          let scale_factor = rndd fl (255 / denominator) in
          case traverse (equalized_entry fl cdfmin scale_factor) cdf of
            Undefined \<Rightarrow> Undefined
          | Returns hist_eq \<Rightarrow> Returns (Some hist_eq))"

subsection \<open>\<^verbatim>\<open>bmp8_equalize\<close>\<close>

definition bmp8_equalize :: "fp \<Rightarrow> heap \<Rightarrow> t_bmp8 \<Rightarrow> t_bmp8 outcome" where
  "bmp8_equalize fl hp img =
     (case data8 img of
        None \<Rightarrow> Returns img
      | Some d \<Rightarrow>
          (case bmp8_computeHistogram hp img of
             Undefined \<Rightarrow> Undefined
           | Returns None \<Rightarrow> Returns img
           | Returns (Some hist) \<Rightarrow>
               (case bmp8_computeEqualizedHistogram fl hp hist (width8 img * height8 img) of
                  Undefined \<Rightarrow> Undefined
                | Returns None \<Rightarrow> Returns img
                | Returns (Some hist_eq) \<Rightarrow>
                    (case for_each (unat (dataSize img))
                            (\<lambda>b. Returns (ucast (hist_eq ! unat b))) d of
                       Undefined \<Rightarrow> Undefined
                     | Returns d' \<Rightarrow> Returns (img\<lparr>data8 := Some d'\<rparr>)))))"

section \<open>Histogram equalization of 24-bit images\<close>

text \<open>\<^verbatim>\<open>clamp_u8_f\<close>: a \<^verbatim>\<open>float\<close> clamped to 0..255 and rounded with \<^verbatim>\<open>roundf\<close>.\<close>

definition clamp_u8_f :: "real \<Rightarrow> byte" where
  "clamp_u8_f v = (if v < 0 then 0 else if v > 255 then 255 else word_of_int (c_round v))"

definition rgb_to_yuv :: "fp \<Rightarrow> t_pixel \<Rightarrow> real \<times> real \<times> real" where
  "rgb_to_yuv fl p =
     (let R = real (unat (red p)); G = real (unat (green p)); B = real (unat (blue p));
          Y = rndf fl (rndf fl (rndf fl (rndf fl (299 / 1000) * R)
                              + rndf fl (rndf fl (587 / 1000) * G))
                     + rndf fl (rndf fl (114 / 1000) * B));
          U = rndf fl (rndf fl (rndf fl (- rndf fl (14713 / 100000) * R)
                              - rndf fl (rndf fl (28886 / 100000) * G))
                     + rndf fl (rndf fl (436 / 1000) * B));
          V = rndf fl (rndf fl (rndf fl (rndf fl (615 / 1000) * R)
                              - rndf fl (rndf fl (51499 / 100000) * G))
                     - rndf fl (rndf fl (10001 / 100000) * B))
      in (Y, U, V))"

text \<open>
  The pixel written back: its luminance byte is looked up in the table (whose entries are
  at most 255 and convert to \<^verbatim>\<open>float\<close> exactly), its chrominance is kept.
\<close>

definition equalized_pixel :: "fp \<Rightarrow> u32 list \<Rightarrow> t_pixel \<Rightarrow> t_pixel" where
  "equalized_pixel fl hist_y_eq p =
     (case rgb_to_yuv fl p of
        (Y, U, V) \<Rightarrow>
          let original_y_int = clamp_u8_f Y;
              Y_eq = real (unat (hist_y_eq ! unat original_y_int));
              R_f = rndf fl (Y_eq + rndf fl (rndf fl (113983 / 100000) * V));
              G_f = rndf fl (rndf fl (Y_eq - rndf fl (rndf fl (39465 / 100000) * U))
                             - rndf fl (rndf fl (58060 / 100000) * V));
              B_f = rndf fl (Y_eq + rndf fl (rndf fl (203211 / 100000) * U))
          in p\<lparr>red := clamp_u8_f R_f, green := clamp_u8_f G_f, blue := clamp_u8_f B_f\<rparr>)"

text \<open>
  \<^verbatim>\<open>numPixels = width * height\<close> is an \<^verbatim>\<open>int\<close> product stored in an \<^verbatim>\<open>unsigned int\<close>. The
  first loop reads every pixel and fills the luminance bytes; when it does not run
  although \<open>numPixels\<close> is not 0, the histogram loop reads bytes that were never written.
\<close>

definition bmp24_equalize :: "fp \<Rightarrow> heap \<Rightarrow> t_bmp24 \<Rightarrow> t_bmp24 outcome" where
  "bmp24_equalize fl hp img =
     (case data img of
        None \<Rightarrow> Returns img
      | Some d \<Rightarrow>
          let w = width img; h = height img in
          if w * h < INT_MIN \<or> INT_MAX < w * h then Undefined
          else
            let numPixels = (word_of_int (w * h) :: u32) in
            if \<not> can_alloc hp (unat numPixels * 12) \<or> \<not> can_alloc hp (unat numPixels)
            then Returns img
            else
              (case snapshot w h d of
                 Undefined \<Rightarrow> Undefined
               | Returns pixels \<Rightarrow>
                   if \<not> can_alloc hp (256 * 4) then Returns img
                   else if (w \<le> 0 \<or> h \<le> 0) \<and> numPixels \<noteq> 0 then Undefined
                   else
                     let y_int_data = map (\<lambda>p. clamp_u8_f (fst (rgb_to_yuv fl p))) (concat pixels);
                         hist_y = count_bytes y_int_data (replicate 256 0)
                     in
                     (case bmp8_computeEqualizedHistogram fl hp hist_y numPixels of
                        Undefined \<Rightarrow> Undefined
                      | Returns None \<Rightarrow> Returns img
                      | Returns (Some hist_y_eq) \<Rightarrow>
                          (case for_each_pixel w h
                                  (\<lambda>p. Returns (equalized_pixel fl hist_y_eq p)) d of
                             Undefined \<Rightarrow> Undefined
                           | Returns d' \<Rightarrow> Returns (img\<lparr>data := Some d'\<rparr>)))))"

section \<open>Auxiliary notions for the statements\<close>

text \<open>
  Two images that differ at most in the content of their pixel bytes: all the other
  fields are equal and the pixel buffers have the same shape.
\<close>

definition same_frame8 :: "t_bmp8 \<Rightarrow> t_bmp8 \<Rightarrow> bool" where
  "same_frame8 img img' \<longleftrightarrow>
     header8 img' = header8 img \<and> colorTable img' = colorTable img
     \<and> width8 img' = width8 img \<and> height8 img' = height8 img
     \<and> colorDepth8 img' = colorDepth8 img \<and> dataSize img' = dataSize img
     \<and> map_option length (data8 img') = map_option length (data8 img)"

definition same_frame24 :: "t_bmp24 \<Rightarrow> t_bmp24 \<Rightarrow> bool" where
  "same_frame24 img img' \<longleftrightarrow>
     header img' = header img \<and> header_info img' = header_info img
     \<and> width img' = width img \<and> height img' = height img
     \<and> colorDepth img' = colorDepth img
     \<and> map_option (map length) (data img') = map_option (map length) (data img)"




subsection \<open>Addressable images\<close>

text \<open>
  An image is addressable when its pixel buffer is present and covers the cells the
  loops of the point operations visit: \<open>dataSize\<close> bytes for an 8-bit image, \<open>height\<close>
  rows of \<open>width\<close> pixels for a 24-bit image.
\<close>

definition addressable8 :: "t_bmp8 \<Rightarrow> bool" where
  "addressable8 img =
     (case data8 img of None \<Rightarrow> False | Some d \<Rightarrow> unat (dataSize img) \<le> length d)"

definition addressable24 :: "t_bmp24 \<Rightarrow> bool" where
  "addressable24 img =
     (case data img of
        None \<Rightarrow> False
      | Some d \<Rightarrow> nat (height img) \<le> length d
                 \<and> list_all (\<lambda>row. nat (width img) \<le> length row) (take (nat (height img)) d))"

subsection \<open>Example images\<close>

text \<open>
  The 2x2 8-bit image with pixel bytes 10, 20, 30, 40 of the specified scenario, and a
  2x2 24-bit image.
\<close>

definition scenario_bmp8 :: t_bmp8 where
  "scenario_bmp8 =
     \<lparr>header8 = replicate 54 0, colorTable = replicate 1024 0,
      data8 = Some [10, 20, 30, 40],
      width8 = 2, height8 = 2, colorDepth8 = 8, dataSize = 4\<rparr>"

definition px :: "byte \<Rightarrow> byte \<Rightarrow> byte \<Rightarrow> t_pixel" where
  "px b g r = \<lparr>blue = b, green = g, red = r\<rparr>"

definition scenario_bmp24 :: t_bmp24 where
  "scenario_bmp24 =
     \<lparr>header = \<lparr>hdr_type = 0x4D42, hdr_size = 70, hdr_reserved1 = 0, hdr_reserved2 = 0,
                 hdr_offset = 54\<rparr>,
      header_info = \<lparr>info_size = 40, info_width = 2, info_height = 2, info_planes = 1,
                      info_bits = 24, info_compression = 0, info_imagesize = 16,
                      info_xresolution = 0, info_yresolution = 0, info_ncolors = 0,
                      info_importantcolors = 0\<rparr>,
      width = 2, height = 2, colorDepth = 24,
      data = Some [[px 1 2 3, px 4 5 6], [px 7 8 9, px 10 11 12]]\<rparr>"


definition box_blur_kernel :: "real list list" where
  "box_blur_kernel = replicate 3 (replicate 3 (1 / 9))"

text \<open>A 1x1 8-bit image, and a 5x5 kernel (the box blur over 25 pixels).\<close>

definition dot_bmp8 :: t_bmp8 where
  "dot_bmp8 =
     \<lparr>header8 = replicate 54 0, colorTable = replicate 1024 0, data8 = Some [7],
      width8 = 1, height8 = 1, colorDepth8 = 8, dataSize = 1\<rparr>"

definition box_blur_kernel5 :: "real list list" where
  "box_blur_kernel5 = replicate 5 (replicate 5 (1 / 25))"

subsection \<open>Example environment and files\<close>

definition plain_heap :: heap where
  "plain_heap = \<lparr>can_alloc = (\<lambda>n. True), junk = (\<lambda>i. 0xAA)\<rparr>"

text \<open>
  An 8-bit BMP of width 3 and height 1 whose single row is padded to 4 bytes, as the BMP
  format prescribes: the \<open>dataSize\<close> field (bytes 34 to 37) is 4.
\<close>

definition padded_bmp8_header :: "byte list" where
  "padded_bmp8_header =
     [0x42, 0x4D,  0x3A, 0x04, 0, 0,  0, 0,  0, 0,  0x36, 0x04, 0, 0,
      40, 0, 0, 0,  3, 0, 0, 0,  1, 0, 0, 0,  1, 0,  8, 0,  0, 0, 0, 0,  4, 0, 0, 0,
      0, 0, 0, 0,  0, 0, 0, 0,  0, 0, 0, 0,  0, 0, 0, 0]"

definition padded_bmp8_file :: "byte list" where
  "padded_bmp8_file = padded_bmp8_header @ replicate 1024 0 @ [1, 2, 3, 0]"

definition padded_bmp8_image :: t_bmp8 where
  "padded_bmp8_image =
     \<lparr>header8 = padded_bmp8_header, colorTable = replicate 1024 0, data8 = Some [1, 2, 3, 0],
      width8 = 3, height8 = 1, colorDepth8 = 8, dataSize = 4\<rparr>"

text \<open>Arithmetic without rounding error, and the histogram of the scenario image.\<close>

definition exact_fp :: fp where
  "exact_fp = \<lparr>rndf = (\<lambda>x. x), rndd = (\<lambda>x. x)\<rparr>"

definition scenario_hist :: "u32 list" where
  "scenario_hist = (replicate 256 0)[10 := 1, 20 := 1, 30 := 1, 40 := 1]"

definition scenario_lut :: "u32 list" where
  "scenario_lut = replicate 20 0 @ replicate 10 85 @ replicate 10 170 @ replicate 216 255"

text \<open>
  A histogram whose counts add up to far more than the 2 pixels it is equalized for: the
  cumulative counts are 1, 2 and 16843011 from index 2 on.
\<close>

definition overflow_hist :: "u32 list" where
  "overflow_hist = [1, 1, 16843009] @ replicate 253 0"

text \<open>What \<^verbatim>\<open>bmp24_allocate(1, 1)\<close> returns on the example heap.\<close>

definition fresh_1x1 :: t_bmp24 where
  "fresh_1x1 =
     \<lparr>header = \<lparr>hdr_type = 0x4D42, hdr_size = 58, hdr_reserved1 = 0, hdr_reserved2 = 0,
                 hdr_offset = 54\<rparr>,
      header_info = \<lparr>info_size = 40, info_width = 1, info_height = 1, info_planes = 1,
                      info_bits = 24, info_compression = 0, info_imagesize = 4,
                      info_xresolution = 0, info_yresolution = 0, info_ncolors = 0,
                      info_importantcolors = 0\<rparr>,
      width = 1, height = 1, colorDepth = 24,
      data = Some [[px 0xAA 0xAA 0xAA]]\<rparr>"

text \<open>
  24-bit files of width 1 and height 2 with the stored rows \<open>(1, 2, 3)\<close> and \<open>(4, 5, 6)\<close>:
  the file with height 2, its truncation after the first stored row, and the file with
  height \<open>-2\<close> (rows stored top-down).
\<close>

definition bmp24_headers :: "byte list \<Rightarrow> byte list \<Rightarrow> byte list" where
  "bmp24_headers height_field resolution_field =
     [0x42, 0x4D,  62, 0, 0, 0,  0, 0,  0, 0,  54, 0, 0, 0,
      40, 0, 0, 0,  1, 0, 0, 0] @ height_field @ [1, 0,  24, 0,  0, 0, 0, 0,  8, 0, 0, 0]
     @ resolution_field @ resolution_field @ [0, 0, 0, 0,  0, 0, 0, 0]"

definition bottomup_bmp24_file :: "byte list" where
  "bottomup_bmp24_file = bmp24_headers [2, 0, 0, 0] [0, 0, 0, 0] @ [1, 2, 3, 0] @ [4, 5, 6, 0]"

definition truncated_bmp24_file :: "byte list" where
  "truncated_bmp24_file = bmp24_headers [2, 0, 0, 0] [0, 0, 0, 0] @ [1, 2, 3, 0]"

definition topdown_bmp24_file :: "byte list" where
  "topdown_bmp24_file =
     bmp24_headers [0xFE, 0xFF, 0xFF, 0xFF] [0, 0, 0, 0] @ [1, 2, 3, 0] @ [4, 5, 6, 0]"

text \<open>The same image with a resolution of 2835 pixels per metre (72 dpi) in both fields.\<close>

definition dpi_bmp24_file :: "byte list" where
  "dpi_bmp24_file = bmp24_headers [2, 0, 0, 0] [0x13, 0x0B, 0, 0] @ [1, 2, 3, 0] @ [4, 5, 6, 0]"

definition loaded_1x2 :: "u32 \<Rightarrow> u32 \<Rightarrow> t_pixel list list \<Rightarrow> t_bmp24" where
  "loaded_1x2 height_field resolution_field rows =
     \<lparr>header = \<lparr>hdr_type = 0x4D42, hdr_size = 62, hdr_reserved1 = 0, hdr_reserved2 = 0,
                 hdr_offset = 54\<rparr>,
      header_info = \<lparr>info_size = 40, info_width = 1, info_height = height_field,
                      info_planes = 1, info_bits = 24, info_compression = 0, info_imagesize = 8,
                      info_xresolution = resolution_field, info_yresolution = resolution_field,
                      info_ncolors = 0, info_importantcolors = 0\<rparr>,
      width = 1, height = 2, colorDepth = 24, data = Some rows\<rparr>"

section \<open>Properties\<close>

subsection \<open>Loops\<close>

lemma traverse_Returns: "traverse (\<lambda>x. Returns (f x)) xs = Returns (map f xs)"
  by (induction xs) simp_all

lemma traverse_length: "traverse f xs = Returns ys \<Longrightarrow> length ys = length xs"
  by (induction xs arbitrary: ys) (auto split: outcome.splits)

lemma for_each_length: "for_each n f buf = Returns buf' \<Longrightarrow> length buf' = length buf"
  by (auto simp: for_each_def split: if_splits outcome.splits dest: traverse_length)

lemma for_each_Returns:
  "n \<le> length buf \<Longrightarrow> for_each n (\<lambda>x. Returns (f x)) buf = Returns (map f (take n buf) @ drop n buf)"
  by (simp add: for_each_def traverse_Returns)

lemma for_each_involution:
  assumes "n \<le> length buf" and "\<And>x. f (f x) = x"
  shows "for_each n (\<lambda>x. Returns (f x)) (map f (take n buf) @ drop n buf) = Returns buf"
proof -
  from assms(1) have "length (map f (take n buf)) = n" by simp
  moreover from assms(2) have "map (f \<circ> f) (take n buf) = take n buf"
    by (simp add: map_idI)
  ultimately show ?thesis
    using assms(1) by (simp add: for_each_Returns)
qed

subsection \<open>Negative is an involution\<close>

lemma negative_byte_twice: "255 - (255 - b) = (b :: byte)"
  by simp

lemma negative_pixel_twice: "negative_pixel (negative_pixel p) = p"
  by (simp add: negative_pixel_def)

lemma bmp8_negative_addressable:
  assumes "data8 img = Some d" and "unat (dataSize img) \<le> length d"
  shows "bmp8_negative img =
           Returns (img\<lparr>data8 := Some (map (\<lambda>b. 255 - b) (take (unat (dataSize img)) d)
                                         @ drop (unat (dataSize img)) d)\<rparr>)"
  using assms by (simp add: bmp8_negative_def for_each_Returns)

lemma bmp8_negative_twice:
  assumes "addressable8 img"
  shows "\<exists>img'. bmp8_negative img = Returns img' \<and> bmp8_negative img' = Returns img"
proof -
  from assms obtain d where d: "data8 img = Some d" "unat (dataSize img) \<le> length d"
    by (auto simp: addressable8_def split: option.splits)
  let ?n = "unat (dataSize img)"
  let ?d' = "map (\<lambda>b. 255 - b) (take ?n d) @ drop ?n d"
  have 1: "bmp8_negative img = Returns (img\<lparr>data8 := Some ?d'\<rparr>)"
    using d by (rule bmp8_negative_addressable)
  have "for_each ?n (\<lambda>b. Returns (255 - b)) ?d' = Returns d"
    using d(2) by (rule for_each_involution) simp
  then have "bmp8_negative (img\<lparr>data8 := Some ?d'\<rparr>) = Returns (img\<lparr>data8 := Some d\<rparr>)"
    by (simp add: bmp8_negative_def)
  also have "img\<lparr>data8 := Some d\<rparr> = img"
    using d(1) by simp
  finally show ?thesis
    using 1 by blast
qed

lemma for_each_row_Returns:
  assumes "list_all (\<lambda>row. n \<le> length row) rows"
  shows "traverse (for_each n (\<lambda>x. Returns (f x))) rows
           = Returns (map (\<lambda>row. map f (take n row) @ drop n row) rows)"
  using assms by (induction rows) (simp_all add: for_each_Returns)

lemma for_each_pixel_Returns:
  assumes "nat h \<le> length rows"
    and "list_all (\<lambda>row. nat w \<le> length row) (take (nat h) rows)"
  shows "for_each_pixel w h (\<lambda>p. Returns (f p)) rows
           = Returns (map (\<lambda>row. map f (take (nat w) row) @ drop (nat w) row) (take (nat h) rows)
                      @ drop (nat h) rows)"
  using assms by (simp add: for_each_pixel_def for_each_def for_each_row_Returns)

lemma row_involution:
  assumes "n \<le> length row" and "\<And>x. f (f x) = x"
  shows "map f (take n (map f (take n row) @ drop n row)) @ drop n (map f (take n row) @ drop n row)
           = row"
proof -
  from assms(1) have "length (map f (take n row)) = n" by simp
  moreover from assms(2) have "map (f \<circ> f) (take n row) = take n row"
    by (simp add: map_idI)
  ultimately show ?thesis by simp
qed

lemma bmp24_negative_twice:
  assumes "addressable24 img"
  shows "\<exists>img'. bmp24_negative img = Returns img' \<and> bmp24_negative img' = Returns img"
proof -
  from assms obtain d where d: "data img = Some d" "nat (height img) \<le> length d"
      "list_all (\<lambda>row. nat (width img) \<le> length row) (take (nat (height img)) d)"
    by (auto simp: addressable24_def split: option.splits)
  let ?w = "nat (width img)" and ?h = "nat (height img)"
  let ?g = "\<lambda>row. map negative_pixel (take ?w row) @ drop ?w row"
  let ?d' = "map ?g (take ?h d) @ drop ?h d"
  have 1: "for_each_pixel (width img) (height img) (\<lambda>p. Returns (negative_pixel p)) d = Returns ?d'"
    using d(2,3) by (rule for_each_pixel_Returns)
  have len: "length (map ?g (take ?h d)) = ?h"
    using d(2) by simp
  have all': "list_all (\<lambda>row. ?w \<le> length row) (take ?h ?d')"
    using d(3) len by (simp add: list_all_iff)
  have "for_each_pixel (width img) (height img) (\<lambda>p. Returns (negative_pixel p)) ?d'
          = Returns (map ?g (take ?h ?d') @ drop ?h ?d')"
    using d(2) all' by (intro for_each_pixel_Returns) simp_all
  also have "map ?g (take ?h ?d') @ drop ?h ?d' = map (?g \<circ> ?g) (take ?h d) @ drop ?h d"
    using len by simp
  also have "map (?g \<circ> ?g) (take ?h d) = take ?h d"
  proof (rule map_idI)
    fix row assume "row \<in> set (take ?h d)"
    with d(3) have "?w \<le> length row" by (simp add: list_all_iff)
    then show "(?g \<circ> ?g) row = row"
      using row_involution [of ?w row negative_pixel] by (simp add: negative_pixel_twice)
  qed
  finally have 2: "for_each_pixel (width img) (height img) (\<lambda>p. Returns (negative_pixel p)) ?d'
          = Returns d" by simp
  have "bmp24_negative img = Returns (img\<lparr>data := Some ?d'\<rparr>)"
    using d(1) 1 by (simp add: bmp24_negative_def)
  moreover have "bmp24_negative (img\<lparr>data := Some ?d'\<rparr>) = Returns (img\<lparr>data := Some d\<rparr>)"
    using 2 by (simp add: bmp24_negative_def)
  moreover have "img\<lparr>data := Some d\<rparr> = img"
    using d(1) by simp
  ultimately show ?thesis by simp
qed

text \<open>
  Claim C9. Applying the negative operation twice to an 8-bit or to a 24-bit image whose
  pixel buffer is addressable gives back the image, every pixel byte at its original
  value.
\<close>

theorem negative_involution:
  "(addressable8 img8 \<longrightarrow>
      (\<exists>img'. bmp8_negative img8 = Returns img' \<and> bmp8_negative img' = Returns img8))
   \<and> (addressable24 img24 \<longrightarrow>
      (\<exists>img'. bmp24_negative img24 = Returns img' \<and> bmp24_negative img' = Returns img24))"
  using bmp8_negative_twice bmp24_negative_twice by blast

theorem negative_involution_witness:
  "addressable8 scenario_bmp8
   \<and> (\<exists>img'. bmp8_negative scenario_bmp8 = Returns img' \<and> bmp8_negative img' = Returns scenario_bmp8)
   \<and> addressable24 scenario_bmp24
   \<and> (\<exists>img'. bmp24_negative scenario_bmp24 = Returns img'
              \<and> bmp24_negative img' = Returns scenario_bmp24)"
proof -
  have 1: "addressable8 scenario_bmp8"
    by (simp add: addressable8_def scenario_bmp8_def)
  have 2: "addressable24 scenario_bmp24"
    by (simp add: addressable24_def scenario_bmp24_def)
  from 1 2 negative_involution [of scenario_bmp8 scenario_bmp24] show ?thesis
    by blast
qed

subsection \<open>Little-endian fields\<close>

lemma le_decode2: "(le_decode [a, b] :: u16) = ucast a OR push_bit 8 (ucast b)"
  by (simp only: le_decode.simps push_bit_of_0 or.right_neutral)

lemma le_decode4:
  "(le_decode [a, b, c, d] :: u32)
     = ucast a OR push_bit 8 (ucast b) OR push_bit 16 (ucast c) OR push_bit 24 (ucast d)"
  by (simp only: le_decode.simps push_bit_or push_bit_push_bit or.right_neutral push_bit_of_0
        or.assoc) simp

lemma encode_decode_u16:
  assumes "length bs = 2"
  shows "encode_u16 (le_decode bs) = bs"
proof -
  from assms obtain a b where bs: "bs = [a, b]"
    by (auto simp: length_Suc_conv numeral_eq_Suc)
  have "(ucast (ucast a OR push_bit 8 (ucast b) :: u16) :: byte) = a"
    by (rule bit_word_eqI) (auto simp add: bit_simps dest: bit_imp_le_length)
  moreover have "(ucast (drop_bit 8 (ucast a OR push_bit 8 (ucast b) :: u16)) :: byte) = b"
    by (rule bit_word_eqI) (auto simp add: bit_simps dest: bit_imp_le_length)
  ultimately show ?thesis
    unfolding bs encode_u16_def le_decode2 by simp
qed

lemma encode_decode_u32:
  assumes "length bs = 4"
  shows "encode_u32 (le_decode bs) = bs"
proof -
  from assms obtain a b c d where bs: "bs = [a, b, c, d]"
    by (auto simp: length_Suc_conv numeral_eq_Suc)
  let ?w = "ucast a OR push_bit 8 (ucast b) OR push_bit 16 (ucast c) OR push_bit 24 (ucast d) :: u32"
  have "(ucast ?w :: byte) = a"
    by (rule bit_word_eqI) (auto simp add: bit_simps dest: bit_imp_le_length)
  moreover have "(ucast (drop_bit 8 ?w) :: byte) = b"
    by (rule bit_word_eqI) (auto simp add: bit_simps dest: bit_imp_le_length)
  moreover have "(ucast (drop_bit 16 ?w) :: byte) = c"
    by (rule bit_word_eqI) (auto simp add: bit_simps dest: bit_imp_le_length)
  moreover have "(ucast (drop_bit 24 ?w) :: byte) = d"
    by (rule bit_word_eqI) (auto simp add: bit_simps dest: bit_imp_le_length)
  ultimately show ?thesis
    unfolding bs encode_u32_def le_decode4 by simp
qed

lemma read_u32_take: "off + 4 \<le> n \<Longrightarrow> read_u32 (take n f) off = read_u32 f off"
  by (simp add: read_u32_def drop_take)

lemma read_u16_take: "off + 2 \<le> n \<Longrightarrow> read_u16 (take n f) off = read_u16 f off"
  by (simp add: read_u16_def drop_take)

subsection \<open>Loading an 8-bit image\<close>

lemma padded_bmp8_header_length: "length padded_bmp8_header = 54"
  by (simp add: padded_bmp8_header_def)

lemma load_padded_bmp8_file:
  "bmp8_loadImage plain_heap (Some padded_bmp8_file) = Inr padded_bmp8_image"
  unfolding bmp8_loadImage_def padded_bmp8_file_def fread_at_def
  apply (simp add: padded_bmp8_header_length plain_heap_def sizeof_t_bmp8_def)
  apply (simp add: plain_heap_def padded_bmp8_header_def read_u32_def read_u16_def
      padded_bmp8_image_def Let_def)
  done

lemma bmp8_load_fields:
  assumes "bmp8_loadImage hp (Some f) = Inr img"
  shows "header8 img = take 54 f \<and> length (take 54 f) = 54
     \<and> colorTable img = take 1024 (drop 54 f) \<and> length (take 1024 (drop 54 f)) = 1024
     \<and> width8 img = read_u32 f 18 \<and> height8 img = read_u32 f 22
     \<and> colorDepth8 img = 8
     \<and> dataSize img = (if read_u32 f 34 = 0 then width8 img * height8 img else read_u32 f 34)
     \<and> data8 img = Some (fread_at (unat (read_u32 f 10)) (unat (dataSize img)) f)
     \<and> length (fread_at (unat (read_u32 f 10)) (unat (dataSize img)) f) = unat (dataSize img)"
  using assms
  by (auto simp: bmp8_loadImage_def Let_def fread_at_def read_u32_take split: if_splits)

text \<open>
  Claim C6, as stated, fails: the padded 3x1 file loads, and the loaded image has
  \<open>dataSize = 4\<close> while \<open>width * height = 3\<close>.
\<close>

theorem bmp8_load_dataSize_counterexample:
  "bmp8_loadImage plain_heap (Some padded_bmp8_file) = Inr padded_bmp8_image
   \<and> dataSize padded_bmp8_image \<noteq> width8 padded_bmp8_image * height8 padded_bmp8_image"
  by (simp add: load_padded_bmp8_file) (simp add: padded_bmp8_image_def)

text \<open>
  Claim C6, amended. For every successfully loaded 8-bit image, \<open>dataSize\<close> is the
  number of pixel bytes held by the image; it equals \<open>width * height\<close> (in 32-bit unsigned
  arithmetic) when the \<open>dataSize\<close> field of the file header reads 0, and it is the value
  of that header field otherwise.
\<close>

theorem bmp8_load_dataSize:
  "bmp8_loadImage hp (Some f) = Inr img \<Longrightarrow>
     dataSize img = (if read_u32 f 34 = 0 then width8 img * height8 img else read_u32 f 34)
     \<and> (\<exists>d. data8 img = Some d \<and> length d = unat (dataSize img))"
  by (drule bmp8_load_fields) blast

theorem bmp8_load_dataSize_witness:
  "bmp8_loadImage plain_heap (Some padded_bmp8_file) = Inr padded_bmp8_image
   \<and> dataSize padded_bmp8_image
       = (if read_u32 padded_bmp8_file 34 = 0
          then width8 padded_bmp8_image * height8 padded_bmp8_image
          else read_u32 padded_bmp8_file 34)
   \<and> (\<exists>d. data8 padded_bmp8_image = Some d \<and> length d = unat (dataSize padded_bmp8_image))"
  using bmp8_load_dataSize [OF load_padded_bmp8_file] load_padded_bmp8_file by blast

subsection \<open>Traversals\<close>

lemma traverse_append:
  "traverse f (xs @ ys) =
     (case traverse f xs of
        Undefined \<Rightarrow> Undefined
      | Returns xs' \<Rightarrow> (case traverse f ys of
                         Undefined \<Rightarrow> Undefined
                       | Returns ys' \<Rightarrow> Returns (xs' @ ys')))"
  by (induction xs) (auto split: outcome.splits)

lemma traverse_replicate:
  "f x = Returns y \<Longrightarrow> traverse f (replicate n x) = Returns (replicate n y)"
  by (induction n) auto

lemma traverse_nth:
  "traverse f xs = Returns ys \<Longrightarrow> i < length xs \<Longrightarrow> f (xs ! i) = Returns (ys ! i)"
proof (induction xs arbitrary: ys i)
  case Nil
  then show ?case by simp
next
  case (Cons x xs)
  then show ?case
    by (cases i) (auto split: outcome.splits)
qed

subsection \<open>The histogram scenario\<close>

lemma scenario_hist_computed:
  "can_alloc hp 1024 \<Longrightarrow> bmp8_computeHistogram hp scenario_bmp8 = Returns (Some scenario_hist)"
  by (simp add: bmp8_computeHistogram_def scenario_bmp8_def scenario_hist_def)

lemma scenario_hist_bins:
  "scenario_hist ! 10 = 1 \<and> scenario_hist ! 20 = 1 \<and> scenario_hist ! 30 = 1
   \<and> scenario_hist ! 40 = 1
   \<and> (\<forall>i<256. i \<noteq> 10 \<and> i \<noteq> 20 \<and> i \<noteq> 30 \<and> i \<noteq> 40 \<longrightarrow> scenario_hist ! i = 0)"
  by (simp add: scenario_hist_def)

lemma scenario_hist_length: "length scenario_hist = 256"
  by (simp add: scenario_hist_def)

lemma scenario_cdf:
  "cumulative 0 scenario_hist
     = replicate 10 0 @ replicate 10 1 @ replicate 10 2 @ replicate 10 3 @ replicate 216 4"
  unfolding scenario_hist_def by code_simp

lemma scenario_cdfmin: "first_nonzero (cumulative 0 scenario_hist) = 1"
  unfolding scenario_cdf by code_simp

lemma scenario_lut_computed:
  assumes exact: "\<forall>k::nat. k \<le> 255 \<longrightarrow> rndd fl (real k) = real k"
    and alloc: "can_alloc hp 1024" "can_alloc hp 2048"
  shows "bmp8_computeEqualizedHistogram fl hp scenario_hist 4 = Returns (Some scenario_lut)"
proof -
  let ?entry = "equalized_entry fl 1 85"
  have r: "rndd fl 0 = 0" "rndd fl 3 = 3" "rndd fl 85 = 85" "rndd fl 170 = 170"
      "rndd fl 255 = 255"
    using exact [rule_format, of 0] exact [rule_format, of 3] exact [rule_format, of 85]
      exact [rule_format, of 170] exact [rule_format, of 255]
    by simp_all
  have e: "?entry 0 = Returns 0" "?entry 1 = Returns 0" "?entry 2 = Returns 85"
      "?entry 3 = Returns 170" "?entry 4 = Returns 255"
    by (simp_all add: equalized_entry_def r c_round_def)
  have s: "scenario_lut
      = replicate 10 0 @ replicate 10 0 @ replicate 10 85 @ replicate 10 170 @ replicate 216 255"
    unfolding scenario_lut_def by (simp add: replicate_add [symmetric])
  have "traverse ?entry (cumulative 0 scenario_hist) = Returns scenario_lut"
    unfolding scenario_cdf s
    by (simp only: traverse_append
        traverse_replicate [where f = ?entry and x = 0, OF e(1)]
        traverse_replicate [where f = ?entry and x = 1, OF e(2)]
        traverse_replicate [where f = ?entry and x = 2, OF e(3)]
        traverse_replicate [where f = ?entry and x = 3, OF e(4)]
        traverse_replicate [where f = ?entry and x = 4, OF e(5)]
        outcome.case)
  then show ?thesis
    by (simp add: bmp8_computeEqualizedHistogram_def alloc scenario_hist_length
        scenario_cdfmin r)
qed

lemma scenario_lut_values: "scenario_lut ! 10 = 0 \<and> scenario_lut ! 40 = 255"
  by (simp add: scenario_lut_def nth_append)

lemma exact_fp_integers: "\<forall>k::nat. k \<le> 255 \<longrightarrow> rndd exact_fp (real k) = real k"
  by (simp add: exact_fp_def)

lemma plain_heap_allocates: "can_alloc plain_heap n"
  by (simp add: plain_heap_def)

text \<open>
  Claim C7. For the 2x2 8-bit image with pixel bytes 10, 20, 30, 40 and \<open>dataSize = 4\<close>,
  the histogram counts 1 at the indices 10, 20, 30 and 40 and 0 at every other index; the
  equalization table computed from it with \<open>numPixels = 4\<close> has \<open>cdfmin = 1\<close> and maps
  intensity 10 to 0 and intensity 40 to 255. (The allocations are taken to succeed, and
  \<^verbatim>\<open>double\<close> arithmetic to be exact on the integers from 0 to 255.)
\<close>

theorem scenario_equalization:
  assumes "\<forall>k::nat. k \<le> 255 \<longrightarrow> rndd fl (real k) = real k"
    and "can_alloc hp 1024" and "can_alloc hp 2048"
  shows "\<exists>hist lut.
           bmp8_computeHistogram hp scenario_bmp8 = Returns (Some hist)
           \<and> hist ! 10 = 1 \<and> hist ! 20 = 1 \<and> hist ! 30 = 1 \<and> hist ! 40 = 1
           \<and> (\<forall>i<256. i \<noteq> 10 \<and> i \<noteq> 20 \<and> i \<noteq> 30 \<and> i \<noteq> 40 \<longrightarrow> hist ! i = 0)
           \<and> first_nonzero (cumulative 0 (take 256 hist)) = 1
           \<and> bmp8_computeEqualizedHistogram fl hp hist 4 = Returns (Some lut)
           \<and> lut ! 10 = 0 \<and> lut ! 40 = 255"
proof (intro exI conjI)
  show "bmp8_computeHistogram hp scenario_bmp8 = Returns (Some scenario_hist)"
    using assms(2) by (rule scenario_hist_computed)
  show "bmp8_computeEqualizedHistogram fl hp scenario_hist 4 = Returns (Some scenario_lut)"
    using assms by (rule scenario_lut_computed)
  show "first_nonzero (cumulative 0 (take 256 scenario_hist)) = 1"
    by (simp add: scenario_hist_length scenario_cdfmin)
qed (use scenario_hist_bins scenario_lut_values in blast)+

theorem scenario_equalization_witness:
  "rndd exact_fp (real 85) = real 85
   \<and> can_alloc plain_heap 1024 \<and> can_alloc plain_heap 2048
   \<and> (\<exists>hist lut.
           bmp8_computeHistogram plain_heap scenario_bmp8 = Returns (Some hist)
           \<and> hist ! 10 = 1 \<and> hist ! 20 = 1 \<and> hist ! 30 = 1 \<and> hist ! 40 = 1
           \<and> (\<forall>i<256. i \<noteq> 10 \<and> i \<noteq> 20 \<and> i \<noteq> 30 \<and> i \<noteq> 40 \<longrightarrow> hist ! i = 0)
           \<and> first_nonzero (cumulative 0 (take 256 hist)) = 1
           \<and> bmp8_computeEqualizedHistogram exact_fp plain_heap hist 4 = Returns (Some lut)
           \<and> lut ! 10 = 0 \<and> lut ! 40 = 255)"
proof -
  have "rndd exact_fp (real 85) = real 85"
    by (simp add: exact_fp_def)
  with scenario_equalization [OF exact_fp_integers plain_heap_allocates plain_heap_allocates]
    plain_heap_allocates
  show ?thesis by blast
qed

subsection \<open>The equalization table is monotone\<close>

lemma c_round_mono: "x \<le> y \<Longrightarrow> c_round x \<le> c_round y"
proof -
  assume xy: "x \<le> y"
  consider "0 \<le> x" | "x < 0" "y < 0" | "x < 0" "0 \<le> y" by linarith
  then show ?thesis
  proof cases
    case 1
    with xy show ?thesis by (simp add: c_round_def floor_mono)
  next
    case 2
    with xy show ?thesis by (simp add: c_round_def ceiling_mono)
  next
    case 3
    have "\<lceil>x - 1 / 2\<rceil> \<le> 0" using 3(1) by (simp add: ceiling_le_iff)
    moreover have "0 \<le> \<lfloor>y + 1 / 2\<rfloor>" using 3(2) by simp
    ultimately have "\<lceil>x - 1 / 2\<rceil> \<le> \<lfloor>y + 1 / 2\<rfloor>" by (rule order_trans)
    then show ?thesis using 3 by (simp add: c_round_def)
  qed
qed

lemma word_of_int_u32_mono:
  assumes "0 \<le> a" "a \<le> b" "b \<le> 255"
  shows "(word_of_int a :: u32) \<le> word_of_int b"
proof -
  have "uint (word_of_int a :: u32) = a" "uint (word_of_int b :: u32) = b"
    using assms by (simp_all add: uint_word_of_int take_bit_int_eq_self)
  then show ?thesis using assms by (simp add: word_le_def)
qed

lemma equalized_entry_mono:
  assumes mono: "\<And>x y. x \<le> y \<Longrightarrow> rndd fl x \<le> rndd fl y"
    and s: "0 \<le> s" and c: "c1 \<le> c2"
    and e1: "equalized_entry fl m s c1 = Returns v1"
    and e2: "equalized_entry fl m s c2 = Returns v2"
  shows "v1 \<le> v2"
proof -
  let ?n1 = "if c1 \<ge> m then c1 - m else 0" and ?n2 = "if c2 \<ge> m then c2 - m else 0"
  let ?r1 = "c_round (rndd fl (real ?n1 * s))" and ?r2 = "c_round (rndd fl (real ?n2 * s))"
  have "?n1 \<le> ?n2" using c by auto
  then have "real ?n1 * s \<le> real ?n2 * s"
    using s by (intro mult_right_mono) simp_all
  then have r: "?r1 \<le> ?r2"
    by (intro c_round_mono mono)
  from e1 have v1: "0 \<le> ?r1" "v1 = (if ?r1 > 255 then 255 else word_of_int ?r1)"
    by (auto simp: equalized_entry_def Let_def split: if_splits)
  from e2 have v2: "v2 = (if ?r2 > 255 then 255 else word_of_int ?r2)"
    by (auto simp: equalized_entry_def Let_def split: if_splits)
  show ?thesis
  proof (cases "?r2 > 255")
    case True
    show ?thesis
    proof (cases "?r1 > 255")
      case True
      with \<open>?r2 > 255\<close> v1 v2 show ?thesis by simp
    next
      case False
      then have "(word_of_int ?r1 :: u32) \<le> word_of_int 255"
        using v1(1) by (intro word_of_int_u32_mono) simp_all
      with False True v1 v2 show ?thesis by simp
    qed
  next
    case False
    with r have "\<not> ?r1 > 255" by linarith
    moreover have "(word_of_int ?r1 :: u32) \<le> word_of_int ?r2"
      using v1(1) r False by (intro word_of_int_u32_mono) simp_all
    ultimately show ?thesis using False v1 v2 by simp
  qed
qed

lemma cumulative_length: "length (cumulative acc hs) = length hs"
  by (induction hs arbitrary: acc) simp_all

lemma cumulative_lower: "x \<in> set (cumulative acc hs) \<Longrightarrow> acc \<le> x"
  by (induction hs arbitrary: acc) fastforce+

lemma cumulative_sorted: "sorted (cumulative acc hs)"
  by (induction hs arbitrary: acc) (auto dest: cumulative_lower)

lemma identity_lut_mono:
  assumes "i \<le> j" "j < 256"
  shows "(map of_nat [0..<256] :: u32 list) ! i \<le> map of_nat [0..<256] ! j"
proof -
  have "unat (of_nat i :: u32) = i" "unat (of_nat j :: u32) = j"
    using assms by (simp_all add: unat_of_nat take_bit_nat_eq_self)
  then have "(of_nat i :: u32) \<le> of_nat j"
    using assms by (simp add: word_le_nat_alt)
  then show ?thesis using assms by simp
qed

text \<open>
  A table that \<^verbatim>\<open>bmp8_computeEqualizedHistogram\<close> returns with defined behaviour is
  monotonically non-decreasing: \<open>lut[i] \<le> lut[j]\<close> for all intensities \<open>i \<le> j\<close>, in the
  identity branch as in the branch of the formula. (\<^verbatim>\<open>double\<close> rounding is taken to be
  monotone and to leave 0 unchanged.)
\<close>

theorem equalization_lut_monotone:
  assumes "\<forall>x y. x \<le> y \<longrightarrow> rndd fl x \<le> rndd fl y"
    and "rndd fl 0 = 0"
    and "bmp8_computeEqualizedHistogram fl hp hist numPixels = Returns (Some lut)"
    and "i \<le> j" and "j < 256"
  shows "lut ! i \<le> lut ! j"
proof -
  note mono = assms(1) [rule_format] and zero = assms(2) and lut = assms(3)
    and ij = assms(4,5)
  let ?cdf = "cumulative 0 (take 256 hist)"
  let ?den = "rndd fl (real (unat numPixels) - real (first_nonzero ?cdf))"
  let ?s = "rndd fl (255 / ?den)"
  from lut have len: "256 \<le> length hist"
    by (auto simp: bmp8_computeEqualizedHistogram_def split: if_splits)
  then have clen: "length ?cdf = 256" by (simp add: cumulative_length)
  show ?thesis
  proof (cases "?den \<le> 0")
    case True
    with lut have "lut = map of_nat [0..<256]"
      by (auto simp: bmp8_computeEqualizedHistogram_def Let_def split: if_splits)
    with ij show ?thesis by (simp only: identity_lut_mono)
  next
    case False
    with lut have tr: "traverse (equalized_entry fl (first_nonzero ?cdf) ?s) ?cdf = Returns lut"
      by (auto simp: bmp8_computeEqualizedHistogram_def Let_def split: if_splits outcome.splits)
    from False have "0 \<le> 255 / ?den" by simp
    then have "rndd fl 0 \<le> ?s" by (rule mono)
    then have s: "0 \<le> ?s" by (simp add: zero)
    have "?cdf ! i \<le> ?cdf ! j"
      using cumulative_sorted ij clen by (simp add: sorted_iff_nth_mono)
    moreover have "equalized_entry fl (first_nonzero ?cdf) ?s (?cdf ! i) = Returns (lut ! i)"
      "equalized_entry fl (first_nonzero ?cdf) ?s (?cdf ! j) = Returns (lut ! j)"
      using traverse_nth [OF tr] ij clen by simp_all
    ultimately show ?thesis
      using equalized_entry_mono [OF mono s] by blast
  qed
qed

theorem equalization_lut_monotone_witness:
  "rndd exact_fp 0 = 0
   \<and> bmp8_computeEqualizedHistogram exact_fp plain_heap scenario_hist 4
       = Returns (Some scenario_lut)
   \<and> (10 :: nat) \<le> 40 \<and> (40 :: nat) < 256
   \<and> scenario_lut ! 10 \<le> scenario_lut ! 40"
proof -
  have 1: "\<forall>x y. x \<le> y \<longrightarrow> rndd exact_fp x \<le> rndd exact_fp y"
    by (simp add: exact_fp_def)
  have 2: "rndd exact_fp 0 = 0"
    by (simp add: exact_fp_def)
  have 3: "bmp8_computeEqualizedHistogram exact_fp plain_heap scenario_hist 4
             = Returns (Some scenario_lut)"
    using exact_fp_integers plain_heap_allocates plain_heap_allocates
    by (rule scenario_lut_computed)
  have 4: "(10 :: nat) \<le> 40" and 5: "(40 :: nat) < 256"
    by simp_all
  from equalization_lut_monotone [OF 1 2 3 4 5] 2 3 4 5 show ?thesis
    by blast
qed

lemma overflow_cdf:
  "cumulative 0 (take 256 overflow_hist)
     = 1 # 2 # 16843011 # cumulative 16843011 (replicate 253 0)"
  by (simp add: overflow_hist_def)

text \<open>
  Claim C8. The equalization table is to be monotonically non-decreasing for every
  histogram and every positive number of pixels. The code does not achieve this for the
  histogram \<open>overflow_hist\<close> and 2 pixels: there \<open>cdfmin\<close> is 1 and the scale factor 255, the
  entry of intensity 1 is 255, and the rounded product of intensity 2 is \<open>2^32 + 254\<close>,
  which the source converts to \<^verbatim>\<open>unsigned int\<close> before it clamps to 255. The value is out
  of the range of \<^verbatim>\<open>unsigned int\<close>, so the conversion has no defined result and no table is
  determined.
\<close>

theorem equalization_lut_overflow:
  "first_nonzero (cumulative 0 (take 256 overflow_hist)) = 1
   \<and> equalized_entry exact_fp 1 255 2 = Returns 255
   \<and> c_round (rndd exact_fp (real (16843011 - 1 :: nat) * 255)) = 2 ^ 32 + 254
   \<and> equalized_entry exact_fp 1 255 16843011 = Undefined
   \<and> bmp8_computeEqualizedHistogram exact_fp plain_heap overflow_hist 2 = Undefined"
proof -
  have len: "\<not> length overflow_hist < 256"
    by (simp add: overflow_hist_def)
  have m: "first_nonzero (cumulative 0 (take 256 overflow_hist)) = 1"
    by (simp add: overflow_cdf)
  have r: "c_round (rndd exact_fp (real (16843011 - 1 :: nat) * 255)) = 2 ^ 32 + 254"
    by (simp add: exact_fp_def c_round_def)
  have e: "equalized_entry exact_fp 1 255 1 = Returns 0"
      "equalized_entry exact_fp 1 255 2 = Returns 255"
      "equalized_entry exact_fp 1 255 16843011 = Undefined"
    by (simp_all add: equalized_entry_def exact_fp_def c_round_def)
  have "traverse (equalized_entry exact_fp 1 255)
          (1 # 2 # 16843011 # cumulative 16843011 (replicate 253 0)) = Undefined"
    by (simp only: traverse.simps e outcome.case)
  then have "bmp8_computeEqualizedHistogram exact_fp plain_heap overflow_hist 2 = Undefined"
    by (simp add: bmp8_computeEqualizedHistogram_def plain_heap_allocates len overflow_cdf
        exact_fp_def)
  with m r e(2,3) show ?thesis by blast
qed

subsection \<open>Allocation of a 24-bit image\<close>

lemma row_size_arith: "(n * 24 + 31) div 32 * 4 = 4 * ((3 * n + 3) div 4)" for n :: nat
  by presburger

lemma padded_row_size_nat:
  assumes "0 \<le> w" "w \<le> INT_MAX"
  shows "padded_row_size w = of_nat (4 * ((3 * nat w + 3) div 4))"
proof -
  let ?n = "nat w"
  have n: "?n < 2 ^ 31" using assms by (simp add: INT_MAX_def)
  have w: "(word_of_int w :: u64) = of_nat ?n" using assms(1)
    by (metis of_int_of_nat_eq int_nat_eq)
  have "(of_nat ?n :: u64) * 3 * 8 + 31 = of_nat (?n * 24 + 31)" by simp
  moreover have "?n * 24 + 31 < 2 ^ 64" using n by simp
  ultimately have a: "unat ((of_nat ?n :: u64) * 3 * 8 + 31) = ?n * 24 + 31"
    by (simp only: unat_of_nat) (simp add: take_bit_nat_eq_self)
  have b: "unat (((of_nat ?n :: u64) * 3 * 8 + 31) div 32) = (?n * 24 + 31) div 32"
    by (simp only: unat_div a) simp
  have "(?n * 24 + 31) div 32 * 4 < 2 ^ 64" using n by simp
  then have c: "unat ((((of_nat ?n :: u64) * 3 * 8 + 31) div 32) * 4) = (?n * 24 + 31) div 32 * 4"
    using b by (simp add: unat_word_ariths(2))
  have "padded_row_size w = of_nat (unat ((((of_nat ?n :: u64) * 3 * 8 + 31) div 32) * 4))"
    unfolding padded_row_size_def w by (simp only: of_nat_unat)
  then show ?thesis
    by (simp only: c row_size_arith)
qed

lemma imagesize_nat:
  assumes "0 \<le> w" "w \<le> INT_MAX" "0 \<le> h"
  shows "padded_row_size w * word_of_int \<bar>h\<bar> = of_nat (4 * ((3 * nat w + 3) div 4) * nat h)"
proof -
  have "(word_of_int \<bar>h\<bar> :: u32) = of_nat (nat h)"
    using assms(3) by (metis abs_of_nonneg of_int_of_nat_eq int_nat_eq)
  then show ?thesis
    using padded_row_size_nat [OF assms(1,2)] by simp
qed

lemma positive_factor_le:
  assumes "0 < w" "0 < h" "w * h \<le> INT_MAX"
  shows "w \<le> INT_MAX"
proof -
  from assms(2) have "1 \<le> h" by simp
  with assms(1) have "w * 1 \<le> w * h" by (intro mult_left_mono) simp_all
  with assms(3) show ?thesis by simp
qed

lemma bmp24_allocateDataPixels_ok:
  assumes "0 < w" "0 < h" "w * h \<le> INT_MAX"
    and "can_alloc hp (nat h * 8)" "can_alloc hp (nat (w * h) * 3)"
  shows "bmp24_allocateDataPixels hp w h =
     Returns (Some (map (\<lambda>y. map (\<lambda>x. junk_pixel hp (y * nat w + x)) [0..<nat w]) [0..<nat h]))"
  using assms by (simp add: bmp24_allocateDataPixels_def)

lemma bmp24_allocate_ok:
  assumes "0 < w" "0 < h" "w * h \<le> INT_MAX"
    and "can_alloc hp sizeof_t_bmp24" "can_alloc hp (nat h * 8)" "can_alloc hp (nat (w * h) * 3)"
  shows "bmp24_allocate hp w h =
     Returns (Some
       \<lparr>header = \<lparr>hdr_type = 0x4D42,
                   hdr_size = 54 + of_nat (4 * ((3 * nat w + 3) div 4) * nat h),
                   hdr_reserved1 = 0, hdr_reserved2 = 0, hdr_offset = 54\<rparr>,
        header_info = \<lparr>info_size = 40, info_width = word_of_int w, info_height = word_of_int h,
                        info_planes = 1, info_bits = 24, info_compression = 0,
                        info_imagesize = of_nat (4 * ((3 * nat w + 3) div 4) * nat h),
                        info_xresolution = 0, info_yresolution = 0, info_ncolors = 0,
                        info_importantcolors = 0\<rparr>,
        width = w, height = h, colorDepth = 24,
        data = Some (map (\<lambda>y. map (\<lambda>x. junk_pixel hp (y * nat w + x)) [0..<nat w])
                         [0..<nat h])\<rparr>)"
proof -
  have "w \<le> INT_MAX" using assms(1-3) by (rule positive_factor_le)
  then have "padded_row_size w * word_of_int \<bar>h\<bar> = of_nat (4 * ((3 * nat w + 3) div 4) * nat h)"
    using assms(1,2) by (intro imagesize_nat) simp_all
  then show ?thesis
    using assms(4) bmp24_allocateDataPixels_ok [OF assms(1-3,5,6)]
    by (simp add: bmp24_allocate_def Let_def)
qed

lemma bmp24_allocate_none:
  assumes "w \<le> 0 \<or> h \<le> 0"
  shows "bmp24_allocate hp w h = Returns None"
  using assms by (auto simp: bmp24_allocate_def bmp24_allocateDataPixels_def)

text \<open>
  Claim C5, as stated, fails: the pixel buffer of the image that \<^verbatim>\<open>bmp24_allocate(1, 1)\<close>
  returns holds what the allocator left in the block, here the byte \<open>0xAA\<close>, not zero.
\<close>

theorem bmp24_allocate_zeroed_counterexample:
  "bmp24_allocate plain_heap 1 1 = Returns (Some fresh_1x1)
   \<and> data fresh_1x1 = Some [[px 0xAA 0xAA 0xAA]]
   \<and> px 0xAA 0xAA 0xAA \<noteq> px 0 0 0"
  by (simp add: bmp24_allocate_def bmp24_allocateDataPixels_def plain_heap_def INT_MAX_def
      padded_row_size_def fresh_1x1_def junk_pixel_def px_def Let_def)

text \<open>
  Claim C5, amended. For \<open>width \<le> 0\<close> or \<open>height \<le> 0\<close>, \<^verbatim>\<open>bmp24_allocate\<close> returns no image.
  For \<open>width > 0\<close> and \<open>height > 0\<close> with \<open>width * height\<close> in the range of \<^verbatim>\<open>int\<close>, and when
  the allocations succeed, it returns an image of that width and height with
  \<open>colorDepth = 24\<close> and a buffer of \<open>height\<close> rows of \<open>width\<close> pixels that is not
  initialised (it holds the content of the allocated block); the header fields are
  \<open>offset = 14 + 40\<close>, \<open>imagesize = rowSizePadded * height\<close> and
  \<open>fileSize = offset + imagesize\<close> as 32-bit unsigned values, where
  \<open>rowSizePadded = ceil(width * 3 / 4) * 4\<close>, and the resolution fields are 0.
\<close>

theorem bmp24_allocate_result:
  "(w \<le> 0 \<or> h \<le> 0 \<longrightarrow> bmp24_allocate hp w h = Returns None)
   \<and> (0 < w \<and> 0 < h \<and> w * h \<le> INT_MAX
        \<and> can_alloc hp sizeof_t_bmp24 \<and> can_alloc hp (nat h * 8)
        \<and> can_alloc hp (nat (w * h) * 3) \<longrightarrow>
       (\<exists>img pixels.
          bmp24_allocate hp w h = Returns (Some img)
          \<and> width img = w \<and> height img = h \<and> colorDepth img = 24
          \<and> data img = Some pixels \<and> length pixels = nat h
          \<and> (\<forall>y<nat h. length (pixels ! y) = nat w
                \<and> (\<forall>x<nat w. pixels ! y ! x = junk_pixel hp (y * nat w + x)))
          \<and> hdr_type (header img) = 0x4D42
          \<and> hdr_offset (header img) = 14 + 40
          \<and> info_imagesize (header_info img) = of_nat (4 * ((3 * nat w + 3) div 4) * nat h)
          \<and> hdr_size (header img) = of_nat (14 + 40 + 4 * ((3 * nat w + 3) div 4) * nat h)
          \<and> info_size (header_info img) = 40
          \<and> info_width (header_info img) = word_of_int w
          \<and> info_height (header_info img) = word_of_int h
          \<and> info_planes (header_info img) = 1 \<and> info_bits (header_info img) = 24
          \<and> info_compression (header_info img) = 0
          \<and> info_xresolution (header_info img) = 0 \<and> info_yresolution (header_info img) = 0
          \<and> info_ncolors (header_info img) = 0
          \<and> info_importantcolors (header_info img) = 0))"
proof (intro conjI impI)
  assume "w \<le> 0 \<or> h \<le> 0"
  then show "bmp24_allocate hp w h = Returns None"
    by (rule bmp24_allocate_none)
next
  assume a: "0 < w \<and> 0 < h \<and> w * h \<le> INT_MAX
        \<and> can_alloc hp sizeof_t_bmp24 \<and> can_alloc hp (nat h * 8)
        \<and> can_alloc hp (nat (w * h) * 3)"
  then have "bmp24_allocate hp w h = Returns (Some
       \<lparr>header = \<lparr>hdr_type = 0x4D42,
                   hdr_size = 54 + of_nat (4 * ((3 * nat w + 3) div 4) * nat h),
                   hdr_reserved1 = 0, hdr_reserved2 = 0, hdr_offset = 54\<rparr>,
        header_info = \<lparr>info_size = 40, info_width = word_of_int w, info_height = word_of_int h,
                        info_planes = 1, info_bits = 24, info_compression = 0,
                        info_imagesize = of_nat (4 * ((3 * nat w + 3) div 4) * nat h),
                        info_xresolution = 0, info_yresolution = 0, info_ncolors = 0,
                        info_importantcolors = 0\<rparr>,
        width = w, height = h, colorDepth = 24,
        data = Some (map (\<lambda>y. map (\<lambda>x. junk_pixel hp (y * nat w + x)) [0..<nat w])
                         [0..<nat h])\<rparr>)"
    by (intro bmp24_allocate_ok) simp_all
  then show "\<exists>img pixels.
          bmp24_allocate hp w h = Returns (Some img)
          \<and> width img = w \<and> height img = h \<and> colorDepth img = 24
          \<and> data img = Some pixels \<and> length pixels = nat h
          \<and> (\<forall>y<nat h. length (pixels ! y) = nat w
                \<and> (\<forall>x<nat w. pixels ! y ! x = junk_pixel hp (y * nat w + x)))
          \<and> hdr_type (header img) = 0x4D42
          \<and> hdr_offset (header img) = 14 + 40
          \<and> info_imagesize (header_info img) = of_nat (4 * ((3 * nat w + 3) div 4) * nat h)
          \<and> hdr_size (header img) = of_nat (14 + 40 + 4 * ((3 * nat w + 3) div 4) * nat h)
          \<and> info_size (header_info img) = 40
          \<and> info_width (header_info img) = word_of_int w
          \<and> info_height (header_info img) = word_of_int h
          \<and> info_planes (header_info img) = 1 \<and> info_bits (header_info img) = 24
          \<and> info_compression (header_info img) = 0
          \<and> info_xresolution (header_info img) = 0 \<and> info_yresolution (header_info img) = 0
          \<and> info_ncolors (header_info img) = 0
          \<and> info_importantcolors (header_info img) = 0"
    by simp
qed

theorem bmp24_allocate_result_witness:
  "((0 :: int) \<le> 0 \<or> (5 :: int) \<le> 0)
   \<and> bmp24_allocate plain_heap 0 5 = Returns None
   \<and> (0 :: int) < 3 \<and> (0 :: int) < 2 \<and> (3 :: int) * 2 \<le> INT_MAX
   \<and> can_alloc plain_heap sizeof_t_bmp24 \<and> can_alloc plain_heap (nat 2 * 8)
   \<and> can_alloc plain_heap (nat (3 * 2) * 3)
   \<and> (\<exists>img pixels.
          bmp24_allocate plain_heap 3 2 = Returns (Some img)
          \<and> width img = 3 \<and> height img = 2 \<and> colorDepth img = 24
          \<and> data img = Some pixels \<and> length pixels = nat 2
          \<and> info_imagesize (header_info img) = 24
          \<and> hdr_size (header img) = 78)"
proof -
  have 1: "(0 :: int) \<le> 0 \<or> (5 :: int) \<le> 0" by simp
  have 2: "(0 :: int) < 3 \<and> (0 :: int) < 2 \<and> (3 :: int) * 2 \<le> INT_MAX
        \<and> can_alloc plain_heap sizeof_t_bmp24 \<and> can_alloc plain_heap (nat 2 * 8)
        \<and> can_alloc plain_heap (nat (3 * 2) * 3)"
    by (simp add: INT_MAX_def plain_heap_def)
  from bmp24_allocate_result [of 0 5 plain_heap] 1
  have 3: "bmp24_allocate plain_heap 0 5 = Returns None" by blast
  from bmp24_allocate_result [of 3 2 plain_heap] 2
  obtain img pixels where "bmp24_allocate plain_heap 3 2 = Returns (Some img)"
      "width img = 3" "height img = 2" "colorDepth img = 24"
      "data img = Some pixels" "length pixels = nat 2"
      "info_imagesize (header_info img) = of_nat (4 * ((3 * nat 3 + 3) div 4) * nat 2)"
      "hdr_size (header img) = of_nat (14 + 40 + 4 * ((3 * nat 3 + 3) div 4) * nat 2)"
    by blast
  then have "\<exists>img pixels.
          bmp24_allocate plain_heap 3 2 = Returns (Some img)
          \<and> width img = 3 \<and> height img = 2 \<and> colorDepth img = 24
          \<and> data img = Some pixels \<and> length pixels = nat 2
          \<and> info_imagesize (header_info img) = 24
          \<and> hdr_size (header img) = 78"
    by simp
  with 1 2 3 show ?thesis by blast
qed

subsection \<open>Reading the pixel rows of a 24-bit file\<close>

lemma length_pixels_to_bytes: "length (pixels_to_bytes ps) = 3 * length ps"
  by (induction ps) simp_all

lemma read_rows_full:
  assumes "length ys * rp \<le> length stream" and "ru \<le> rp"
    and "\<forall>y\<in>set ys. y < length d \<and> ru \<le> 3 * length (d ! y)"
    and "distinct ys"
  shows "\<exists>d'. read_rows ru rp ys stream d = Returns d' \<and> length d' = length d
     \<and> (\<forall>k<length ys. d' ! (ys ! k)
           = bytes_to_pixels (take ru (drop (k * rp) stream)
                              @ drop ru (pixels_to_bytes (d ! (ys ! k)))))
     \<and> (\<forall>y<length d. y \<notin> set ys \<longrightarrow> d' ! y = d ! y)"
  using assms
proof (induction ys arbitrary: stream d)
  case Nil
  then show ?case by simp
next
  case (Cons y ys)
  let ?row = "bytes_to_pixels (take ru stream @ drop ru (pixels_to_bytes (d ! y)))"
  let ?d1 = "d[y := ?row]"
  from Cons.prems have y: "y < length d" "ru \<le> 3 * length (d ! y)" "y \<notin> set ys" "distinct ys"
    by simp_all
  from Cons.prems(1) have len: "rp \<le> length stream" "length ys * rp \<le> length (drop rp stream)"
    by simp_all
  have take_ru: "take ru (take rp stream) = take ru stream"
    using Cons.prems(2) by (simp add: min_def)
  have len_ru: "length (take ru stream) = ru"
    using len(1) Cons.prems(2) by simp
  have step: "read_rows ru rp (y # ys) stream d = read_rows ru rp ys (drop rp stream) ?d1"
    using y(1,2) len(1) Cons.prems(2) len_ru
    by (simp add: memcpy_to_row_def take_ru Let_def)
  have pre: "\<forall>y'\<in>set ys. y' < length ?d1 \<and> ru \<le> 3 * length (?d1 ! y')"
    using Cons.prems(3) y(3) by (auto simp: nth_list_update)
  from Cons.IH [OF len(2) Cons.prems(2) pre y(4)]
  obtain d' where d': "read_rows ru rp ys (drop rp stream) ?d1 = Returns d'"
      "length d' = length ?d1"
      "\<forall>k<length ys. d' ! (ys ! k)
           = bytes_to_pixels (take ru (drop (k * rp) (drop rp stream))
                              @ drop ru (pixels_to_bytes (?d1 ! (ys ! k))))"
      "\<forall>y'<length ?d1. y' \<notin> set ys \<longrightarrow> d' ! y' = ?d1 ! y'"
    by blast
  have a: "d' ! ((y # ys) ! k)
           = bytes_to_pixels (take ru (drop (k * rp) stream)
                              @ drop ru (pixels_to_bytes (d ! ((y # ys) ! k))))"
    if "k < length (y # ys)" for k
  proof (cases k)
    case 0
    then show ?thesis using d'(4) y(1,3) by simp
  next
    case (Suc j)
    with that have j: "j < length ys" by simp
    then have "ys ! j \<noteq> y" using y(3) by (metis nth_mem)
    then show ?thesis
      using d'(3) j Suc by (simp add: add.commute)
  qed
  have b: "d' ! y' = d ! y'" if "y' < length d" "y' \<notin> set (y # ys)" for y'
    using d'(4) that by simp
  show ?case
    using step d'(1,2) a b by simp
qed
lemma word_of_int_times3:
  assumes "0 < w"
  shows "(word_of_int (w * 3) :: u32) = of_nat (3 * nat w)"
proof -
  have "w * 3 = int (3 * nat w)" using assms by simp
  then show ?thesis by (simp only: of_int_of_nat_eq)
qed

lemma unpadded_unat:
  assumes "0 < w" "w * 3 \<le> INT_MAX"
  shows "unat (word_of_int (w * 3) :: u32) = 3 * nat w"
proof -
  have "3 * nat w < 2 ^ 32" using assms by (simp add: INT_MAX_def)
  then show ?thesis
    by (simp only: word_of_int_times3 [OF assms(1)] unat_of_nat) (simp add: take_bit_nat_eq_self)
qed

lemma pad_arith: "n + (4 - n mod 4) mod 4 = 4 * ((n + 3) div 4)" for n :: nat
proof -
  define q r where "q = n div 4" and "r = n mod 4"
  have n: "n = 4 * q + r" and r: "r < 4" by (simp_all add: q_def r_def)
  have m: "n mod 4 = r" by (simp add: r_def)
  have d: "(n + 3) div 4 = q + (r + 3) div 4"
    unfolding n by (simp add: add.assoc)
  from r consider "r = 0" | "r = 1" | "r = 2" | "r = 3" by linarith
  then have "n + (4 - r) mod 4 = 4 * (q + (r + 3) div 4)"
    by cases (simp_all add: n)
  then show ?thesis by (simp only: m d)
qed

lemma pad_le: "n \<le> 4 * ((n + 3) div 4)" for n :: nat
  using pad_arith [of n] by linarith

lemma mod4_le: "(ru :: u32) mod 4 \<le> 4"
  by (simp add: word_le_nat_alt unat_mod)

lemma unat_sub_mod4: "unat (4 - (ru :: u32) mod 4) = 4 - unat ru mod 4"
  using unat_sub [OF mod4_le, of ru] by (simp add: unat_mod)

lemma unat_padding: "unat ((4 - (ru :: u32) mod 4) mod 4) = (4 - unat ru mod 4) mod 4"
  using unat_sub_mod4 [of ru] by (simp add: unat_mod [of "4 - ru mod 4" 4])

lemma unat_padded:
  assumes "unat (ru :: u32) < 2 ^ 31"
  shows "unat (ru + (4 - ru mod 4) mod 4) = 4 * ((unat ru + 3) div 4)"
proof -
  have "unat ru + (4 - unat ru mod 4) mod 4 < 2 ^ 32" using assms by simp
  then have "unat ru + unat ((4 - ru mod 4) mod 4) < 2 ^ LENGTH(32)"
    by (simp add: unat_padding)
  then have "unat (ru + (4 - ru mod 4) mod 4) = unat ru + unat ((4 - ru mod 4) mod 4)"
    by (rule unat_add_lem [THEN iffD1])
  then have "unat (ru + (4 - ru mod 4) mod 4) = unat ru + (4 - unat ru mod 4) mod 4"
    by (simp only: unat_padding)
  then show ?thesis
    by (rule trans [OF _ pad_arith])
qed

lemma padded_unat:
  assumes "0 < w" "w * 3 \<le> INT_MAX"
  shows "unat ((word_of_int (w * 3) :: u32) + (4 - word_of_int (w * 3) mod 4) mod 4) = row_bytes w"
proof -
  have n: "unat (word_of_int (w * 3) :: u32) = 3 * nat w" using assms by (rule unpadded_unat)
  have "3 * nat w < 2 ^ 31" using assms by (simp add: INT_MAX_def)
  then have "unat (word_of_int (w * 3) :: u32) < 2 ^ 31" by (simp only: n)
  from unat_padded [OF this] have "unat ((word_of_int (w * 3) :: u32) + (4 - word_of_int (w * 3) mod 4) mod 4)
      = 4 * ((unat (word_of_int (w * 3) :: u32) + 3) div 4)" .
  also have "\<dots> = row_bytes w"
    unfolding n row_bytes_def ..
  finally show ?thesis .
qed


lemma bmp24_readPixelData_fresh:
  assumes w: "0 < width img" "width img * 3 \<le> INT_MAX" and h: "0 \<le> height img"
    and d: "data img = Some d" "length d = nat (height img)"
      "\<forall>y<nat (height img). length (d ! y) = nat (width img)"
    and al: "can_alloc hp (row_bytes (width img))"
    and len: "unat (hdr_offset (header img)) + nat (height img) * row_bytes (width img) \<le> length f"
  shows "bmp24_readPixelData hp img f =
     Returns (img\<lparr>data := Some (map (\<lambda>y. bytes_to_pixels (take (3 * nat (width img))
         (drop (unat (hdr_offset (header img)) + (nat (height img) - 1 - y) * row_bytes (width img)) f)))
         [0..<nat (height img)])\<rparr>)"
proof -
  let ?w = "width img" and ?n = "nat (height img)" and ?off = "unat (hdr_offset (header img))"
  let ?ru = "3 * nat ?w" and ?rp = "row_bytes ?w"
  let ?ys = "rev [0..<?n]"
  let ?stream = "drop ?off f"
  have rurp: "?ru \<le> ?rp" unfolding row_bytes_def by (rule pad_le)
  have 1: "length ?ys * ?rp \<le> length ?stream" using len by simp
  have 2: "\<forall>y\<in>set ?ys. y < length d \<and> ?ru \<le> 3 * length (d ! y)"
    using d(2,3) by simp
  have 3: "distinct ?ys" by simp
  from read_rows_full [OF 1 rurp 2 3]
  obtain d' where d': "read_rows ?ru ?rp ?ys ?stream d = Returns d'" "length d' = length d"
      "\<forall>k<length ?ys. d' ! (?ys ! k)
           = bytes_to_pixels (take ?ru (drop (k * ?rp) ?stream)
                              @ drop ?ru (pixels_to_bytes (d ! (?ys ! k))))"
    by blast
  have rows: "d' ! y = bytes_to_pixels (take ?ru (drop (?off + (?n - 1 - y) * ?rp) f))"
    if "y < ?n" for y
  proof -
    let ?k = "?n - 1 - y"
    from that have k: "?k < length ?ys" "?ys ! ?k = y"
      by (simp_all add: rev_nth)
    have "drop ?ru (pixels_to_bytes (d ! y)) = []"
      using d(3) that by (simp add: length_pixels_to_bytes)
    with d'(3) [rule_format, OF k(1)] k(2) show ?thesis
      by (simp add: add.commute)
  qed
  have eq: "d' = map (\<lambda>y. bytes_to_pixels (take ?ru (drop (?off + (?n - 1 - y) * ?rp) f))) [0..<?n]"
    using d'(2) d(2) rows by (intro nth_equalityI) simp_all
  have bpp: "(if uint (info_bits (header_info img)) div 8 \<noteq> 3 then 3
              else uint (info_bits (header_info img)) div 8) = 3"
    by simp
  have ge: "\<not> ?w * 3 < INT_MIN" using w(1) by (simp add: INT_MIN_def)
  show ?thesis
    unfolding bmp24_readPixelData_def d(1) option.case Let_def bpp
    using w(2) ge al d'(1)
    by (simp only: unpadded_unat [OF w] padded_unat [OF w] eq [symmetric] if_False if_True
          not_less [symmetric] simp_thms outcome.case)
qed


subsection \<open>Loading a 24-bit image\<close>

lemma file_rawRead_complete:
  "pos + n \<le> length f \<Longrightarrow> file_rawRead pos n f = Returns (fread_at pos n f)"
  by (simp add: file_rawRead_def fread_at_def)

lemma bmp24_load_loadable:
  assumes "loadable24 hp f"
  shows "bmp24_loadImage hp (Some f) =
     Returns (Inr \<lparr>header = file_header f, header_info = file_info f,
                   width = file_width f, height = \<bar>file_height f\<bar>, colorDepth = 24,
                   data = Some (map (\<lambda>y. stored_row f (nat \<bar>file_height f\<bar> - 1 - y))
                                    [0..<nat \<bar>file_height f\<bar>])\<rparr>)"
proof -
  let ?w = "file_width f" and ?h = "\<bar>file_height f\<bar>"
  let ?junk = "map (\<lambda>y. map (\<lambda>x. junk_pixel hp (y * nat ?w + x)) [0..<nat ?w]) [0..<nat ?h]"
  from assms have a: "54 \<le> length f" "hdr_type (file_header f) = 0x4D42"
      "info_bits (file_info f) = 24" "info_compression (file_info f) = 0"
      "file_height f \<noteq> INT_MIN" "0 < ?w" "file_height f \<noteq> 0"
      "?w * ?h \<le> INT_MAX" "?w * 3 \<le> INT_MAX"
      "can_alloc hp sizeof_t_bmp24" "can_alloc hp (nat ?h * 8)"
      "can_alloc hp (nat (?w * ?h) * 3)" "can_alloc hp (row_bytes ?w)"
      "unat (hdr_offset (file_header f)) + nat ?h * row_bytes ?w \<le> length f"
    by (simp_all add: loadable24_def)
  have h: "0 < ?h" using a(7) by simp
  have r1: "file_rawRead 0 14 f = Returns (fread_at 0 14 f)"
    using a(1) by (intro file_rawRead_complete) simp
  have r2: "file_rawRead 14 40 f = Returns (fread_at 14 40 f)"
    using a(1) by (intro file_rawRead_complete) simp
  obtain img0 where img0: "bmp24_allocate hp ?w ?h = Returns (Some img0)"
      "data img0 = Some ?junk"
    using bmp24_allocate_ok [OF a(6) h a(8) a(10) a(11) a(12)] by simp
  define img1 where "img1 = img0\<lparr>header := file_header f, header_info := file_info f,
      width := ?w, height := ?h, colorDepth := uint (info_bits (file_info f))\<rparr>"
  have i1: "width img1 = ?w" "height img1 = ?h" "header img1 = file_header f"
      "data img1 = Some ?junk"
    by (simp_all add: img1_def img0(2))
  have rd: "bmp24_readPixelData hp img1 f =
     Returns (img1\<lparr>data := Some (map (\<lambda>y. bytes_to_pixels (take (3 * nat (width img1))
         (drop (unat (hdr_offset (header img1)) + (nat (height img1) - 1 - y) * row_bytes (width img1)) f)))
         [0..<nat (height img1)])\<rparr>)"
  proof (rule bmp24_readPixelData_fresh)
    show "data img1 = Some ?junk" by (rule i1(4))
  qed (use a h in \<open>simp_all add: i1\<close>)
  have res: "img1\<lparr>data := Some (map (\<lambda>y. bytes_to_pixels (take (3 * nat (width img1))
         (drop (unat (hdr_offset (header img1)) + (nat (height img1) - 1 - y) * row_bytes (width img1)) f)))
         [0..<nat (height img1)])\<rparr>
      = \<lparr>header = file_header f, header_info = file_info f,
                   width = ?w, height = ?h, colorDepth = 24,
                   data = Some (map (\<lambda>y. stored_row f (nat ?h - 1 - y)) [0..<nat ?h])\<rparr>"
    by (simp add: img1_def stored_row_def a(3))
  have "bmp24_loadImage hp (Some f) =
      (case bmp24_readPixelData hp img1 f of
         Undefined \<Rightarrow> Undefined
       | Returns img' \<Rightarrow> Returns (Inr img'))"
    using a(2-7) h img0(1)
    by (simp add: bmp24_loadImage_def r1 r2 Let_def file_header_def [symmetric]
        file_info_def [symmetric] file_width_def [symmetric] file_height_def [symmetric]
        img1_def)
  also have "\<dots> = Returns (Inr \<lparr>header = file_header f, header_info = file_info f,
                   width = ?w, height = ?h, colorDepth = 24,
                   data = Some (map (\<lambda>y. stored_row f (nat ?h - 1 - y)) [0..<nat ?h])\<rparr>)"
    by (simp only: rd res outcome.case)
  finally show ?thesis .
qed


text \<open>
  Claim C2 is not met by the code. The file below has valid headers for a 1x2 image but
  holds only the first of its two stored rows. \<^verbatim>\<open>bmp24_readPixelData\<close> stops at the short
  read of the second row, and \<^verbatim>\<open>bmp24_loadImage\<close> still returns the image: its row 1 holds
  the row that was read, its row 0 what the allocator left there.
\<close>

theorem bmp24_load_truncated:
  "bmp24_loadImage plain_heap (Some truncated_bmp24_file)
     = Returns (Inr (loaded_1x2 2 0 [[px 0xAA 0xAA 0xAA], [px 1 2 3]]))"
  by code_simp

text \<open>
  Claim C4, as stated, fails. In the file below the height field is \<open>-2\<close>, so its rows are
  stored top-down and the topmost image row is the first stored row, \<open>(1, 2, 3)\<close>. After
  the load, in-memory row 0 holds the other row, \<open>(4, 5, 6)\<close>.
\<close>

theorem bmp24_load_topdown_counterexample:
  "bmp24_loadImage plain_heap (Some topdown_bmp24_file)
     = Returns (Inr (loaded_1x2 (- 2) 0 [[px 4 5 6], [px 1 2 3]]))
   \<and> file_height topdown_bmp24_file = - 2
   \<and> topmost_image_row topdown_bmp24_file = [px 1 2 3]
   \<and> [[px 4 5 6], [px 1 2 3]] ! 0 \<noteq> topmost_image_row topdown_bmp24_file"
  by code_simp

text \<open>
  Claim C4, amended. For every 24-bit BMP file that is accepted and read to the end,
  whatever the sign of its height field, the loaded image has the absolute value of the
  field as its height and as its number of rows, and in-memory row \<open>y\<close> holds the row
  stored at position \<open>height - 1 - y\<close> of the pixel data. A file with a positive height
  (rows stored bottom-up) thus has its topmost image row in in-memory row 0; a file with a
  negative height (rows stored top-down) is read in the same way and has its topmost
  image row in the last in-memory row.
\<close>

theorem bmp24_load_row_order:
  assumes "loadable24 hp f"
  shows "\<exists>img rows.
           bmp24_loadImage hp (Some f) = Returns (Inr img)
           \<and> height img = \<bar>file_height f\<bar>
           \<and> data img = Some rows
           \<and> length rows = nat \<bar>file_height f\<bar>
           \<and> (\<forall>y<nat \<bar>file_height f\<bar>. rows ! y = stored_row f (nat \<bar>file_height f\<bar> - 1 - y))
           \<and> (0 < file_height f \<longrightarrow> rows ! 0 = topmost_image_row f)
           \<and> (file_height f < 0 \<longrightarrow> rows ! (nat \<bar>file_height f\<bar> - 1) = topmost_image_row f)"
proof -
  let ?n = "nat \<bar>file_height f\<bar>"
  let ?rows = "map (\<lambda>y. stored_row f (?n - 1 - y)) [0..<?n]"
  from assms have n: "0 < ?n" by (simp add: loadable24_def)
  have "bmp24_loadImage hp (Some f) =
     Returns (Inr \<lparr>header = file_header f, header_info = file_info f,
                   width = file_width f, height = \<bar>file_height f\<bar>, colorDepth = 24,
                   data = Some ?rows\<rparr>)"
    using assms by (rule bmp24_load_loadable)
  moreover have "\<forall>y<?n. ?rows ! y = stored_row f (?n - 1 - y)"
    by simp
  moreover have "0 < file_height f \<longrightarrow> ?rows ! 0 = topmost_image_row f"
    using n by (simp add: topmost_image_row_def)
  moreover have "file_height f < 0 \<longrightarrow> ?rows ! (?n - 1) = topmost_image_row f"
    using n by (simp add: topmost_image_row_def)
  ultimately show ?thesis by simp
qed

lemma topdown_file_loadable: "loadable24 plain_heap topdown_bmp24_file"
  by (simp add: loadable24_def file_height_def file_info_def fread_at_def bmp24_headers_def
      topdown_bmp24_file_def decode_info_def read_u16_def read_u32_def file_width_def
      file_header_def decode_header_def row_bytes_def plain_heap_def INT_MIN_def INT_MAX_def)

theorem bmp24_load_row_order_witness:
  "loadable24 plain_heap topdown_bmp24_file
   \<and> (\<exists>img rows.
           bmp24_loadImage plain_heap (Some topdown_bmp24_file) = Returns (Inr img)
           \<and> height img = \<bar>file_height topdown_bmp24_file\<bar>
           \<and> data img = Some rows
           \<and> length rows = nat \<bar>file_height topdown_bmp24_file\<bar>
           \<and> (\<forall>y<nat \<bar>file_height topdown_bmp24_file\<bar>.
                 rows ! y = stored_row topdown_bmp24_file
                              (nat \<bar>file_height topdown_bmp24_file\<bar> - 1 - y))
           \<and> (0 < file_height topdown_bmp24_file
                 \<longrightarrow> rows ! 0 = topmost_image_row topdown_bmp24_file)
           \<and> (file_height topdown_bmp24_file < 0
                 \<longrightarrow> rows ! (nat \<bar>file_height topdown_bmp24_file\<bar> - 1)
                       = topmost_image_row topdown_bmp24_file))"
  using bmp24_load_row_order [OF topdown_file_loadable] topdown_file_loadable
  by blast

subsection \<open>Saving a 24-bit image\<close>

lemma write_rows_full:
  assumes "ru \<le> rp" and "\<forall>y\<in>set ys. y < length d \<and> ru \<le> 3 * length (d ! y)"
  shows "write_rows ru rp ys d =
     Returns (concat (map (\<lambda>y. take ru (pixels_to_bytes (d ! y)) @ replicate (rp - ru) 0) ys))"
  using assms by (induction ys) (simp_all add: memcpy_from_row_def)

lemma concat_chunks:
  "concat (map (\<lambda>k. take rp (drop (off + k * rp) f)) [0..<n]) = take (n * rp) (drop off f)"
proof (induction n)
  case 0
  then show ?case by simp
next
  case (Suc n)
  have "take (n * rp + rp) (drop off f)
      = take (n * rp) (drop off f) @ take rp (drop (n * rp) (drop off f))"
    by (rule take_add)
  moreover have "drop (n * rp) (drop off f) = drop (off + n * rp) f"
    by (simp add: add.commute)
  moreover have "Suc n * rp = n * rp + rp" by simp
  ultimately have "take (n * rp) (drop off f) @ take rp (drop (off + n * rp) f)
      = take (Suc n * rp) (drop off f)"
    by (simp only:)
  with Suc show ?case by (simp del: mult_Suc)
qed

lemma map_rev_upt: "map (\<lambda>y. g (n - 1 - y)) (rev [0..<n]) = map g [0..<n]"
proof (rule nth_equalityI)
  show "length (map (\<lambda>y. g (n - 1 - y)) (rev [0..<n])) = length (map g [0..<n])" by simp
next
  fix i assume "i < length (map (\<lambda>y. g (n - 1 - y)) (rev [0..<n]))"
  then have i: "i < n" by simp
  then have "rev [0..<n] ! i = n - 1 - i" by (simp add: rev_nth)
  with i show "map (\<lambda>y. g (n - 1 - y)) (rev [0..<n]) ! i = map g [0..<n] ! i"
    by simp
qed

lemma slice_append: "take n (drop k xs) @ take m (drop (k + n) xs) = take (n + m) (drop k xs)"
proof -
  have "take (n + m) (drop k xs) = take n (drop k xs) @ take m (drop n (drop k xs))"
    by (rule take_add)
  moreover have "drop n (drop k xs) = drop (k + n) xs"
    by (simp add: add.commute)
  ultimately show ?thesis by (simp only:)
qed

lemma encode_read_u16: "off + 2 \<le> length b \<Longrightarrow> encode_u16 (read_u16 b off) = take 2 (drop off b)"
  unfolding read_u16_def by (rule encode_decode_u16) simp

lemma encode_read_u32: "off + 4 \<le> length b \<Longrightarrow> encode_u32 (read_u32 b off) = take 4 (drop off b)"
  unfolding read_u32_def by (rule encode_decode_u32) simp

lemma encode_decode_header:
  assumes "length b = 14"
  shows "encode_header (decode_header b) = b"
proof -
  have "encode_header (decode_header b)
      = take 2 (drop 0 b) @ take 4 (drop 2 b) @ take 2 (drop 6 b) @ take 2 (drop 8 b)
        @ take 4 (drop 10 b)"
    using assms by (simp add: encode_header_def decode_header_def encode_read_u16 encode_read_u32)
  also have "\<dots> = take 14 (drop 0 b)"
    using slice_append [of 2 8 b 4] slice_append [of 2 6 b 6] slice_append [of 4 2 b 8]
      take_add [of 2 12 b]
    by simp
  finally show ?thesis using assms by simp
qed

lemma encode_decode_info:
  assumes "length b = 40"
  shows "encode_info (decode_info b) = b"
proof -
  have "encode_info (decode_info b)
      = take 4 (drop 0 b) @ take 4 (drop 4 b) @ take 4 (drop 8 b) @ take 2 (drop 12 b)
        @ take 2 (drop 14 b) @ take 4 (drop 16 b) @ take 4 (drop 20 b) @ take 4 (drop 24 b)
        @ take 4 (drop 28 b) @ take 4 (drop 32 b) @ take 4 (drop 36 b)"
    using assms by (simp add: encode_info_def decode_info_def encode_read_u16 encode_read_u32)
  also have "\<dots> = take 40 (drop 0 b)"
    using slice_append [of 4 32 b 4] slice_append [of 4 28 b 8] slice_append [of 4 24 b 12]
      slice_append [of 4 20 b 16] slice_append [of 4 16 b 20] slice_append [of 2 14 b 24]
      slice_append [of 2 12 b 26] slice_append [of 4 8 b 28] slice_append [of 4 4 b 32]
      take_add [of 4 36 b]
    by simp
  finally show ?thesis using assms by simp
qed


lemma pixels_to_bytes_to_pixels:
  "length bs = 3 * n \<Longrightarrow> pixels_to_bytes (bytes_to_pixels bs) = bs"
proof (induction n arbitrary: bs)
  case 0
  then show ?case by simp
next
  case (Suc n)
  then obtain b g r rest where bs: "bs = b # g # r # rest" and "length rest = 3 * n"
    by (cases bs; cases "tl bs"; cases "tl (tl bs)") auto
  with Suc.IH show ?case by simp
qed

lemma fwrite_at_end: "buf \<noteq> [] \<Longrightarrow> length file = pos \<Longrightarrow> fwrite_at pos buf file = file @ buf"
  by (simp add: fwrite_at_def)

lemma bmp24_writePixelData_rows:
  assumes w: "0 < width img" "width img * 3 \<le> INT_MAX"
    and d: "data img = Some d" "length d = nat (height img)"
      "\<forall>y<nat (height img). length (d ! y) = nat (width img)"
    and al: "can_alloc hp (row_bytes (width img))"
  shows "bmp24_writePixelData hp img file =
     Returns (fwrite_at (unat (hdr_offset (header img)))
       (concat (map (\<lambda>y. take (3 * nat (width img)) (pixels_to_bytes (d ! y))
                          @ replicate (row_bytes (width img) - 3 * nat (width img)) 0)
                    (rev [0..<nat (height img)]))) file)"
proof -
  let ?w = "width img" and ?n = "nat (height img)"
  let ?ru = "3 * nat ?w" and ?rp = "row_bytes ?w"
  have rurp: "?ru \<le> ?rp" unfolding row_bytes_def by (rule pad_le)
  have 2: "\<forall>y\<in>set (rev [0..<?n]). y < length d \<and> ?ru \<le> 3 * length (d ! y)"
    using d(2,3) by simp
  note wr = write_rows_full [OF rurp 2]
  have ge: "\<not> ?w * 3 < INT_MIN" using w(1) by (simp add: INT_MIN_def)
  show ?thesis
    unfolding bmp24_writePixelData_def d(1) option.case Let_def
    using w(2) ge al
    by (simp only: unpadded_unat [OF w] padded_unat [OF w] wr if_False if_True
          not_less [symmetric] simp_thms outcome.case)
qed


subsection \<open>Round trip through load and save\<close>

lemma take_header_palette_rest:
  "54 + 1024 \<le> length f \<Longrightarrow> take 54 f @ take 1024 (drop 54 f) @ drop 1078 f = f"
proof -
  have "take 1024 (drop 54 f) @ drop 1078 f = drop 54 f"
    using append_take_drop_id [of 1024 "drop 54 f"] by simp
  then show ?thesis by simp
qed

lemma bmp8_roundtrip:
  assumes "canonical8 hp f"
  shows "\<exists>img. bmp8_loadImage hp (Some f) = Inr img \<and> bmp8_saveImage img = Returns f"
proof -
  define dsize where
    "dsize = (if read_u32 f 34 = 0 then read_u32 f 18 * read_u32 f 22 else read_u32 f 34)"
  let ?img = "\<lparr>header8 = take 54 f, colorTable = take 1024 (drop 54 f),
                data8 = Some (drop 1078 f),
                width8 = read_u32 f 18, height8 = read_u32 f 22, colorDepth8 = 8,
                dataSize = dsize\<rparr>"
  from assms have a: "1078 \<le> length f" "f ! 0 = 0x42" "f ! 1 = 0x4D" "read_u16 f 28 = 8"
      "read_u32 f 10 = 1078" "length f = 1078 + unat dsize"
      "can_alloc hp sizeof_t_bmp8" "can_alloc hp (unat dsize)"
    unfolding canonical8_def dsize_def by blast+
  have hdr: "fread_at 0 54 f = take 54 f" "length (take 54 f) = 54"
    using a(1) by (simp_all add: fread_at_def)
  have ct: "fread_at 54 1024 f = take 1024 (drop 54 f)" "length (take 1024 (drop 54 f)) = 1024"
    using a(1) by (simp_all add: fread_at_def)
  have px: "fread_at 1078 (unat dsize) f = drop 1078 f" "length (drop 1078 f) = unat dsize"
    using a(6) by (simp_all add: fread_at_def)
  have sig: "take 54 f ! 0 = 0x42" "take 54 f ! 1 = 0x4D"
    using a(2,3) by simp_all
  have fields: "read_u32 (take 54 f) 18 = read_u32 f 18" "read_u32 (take 54 f) 22 = read_u32 f 22"
      "read_u32 (take 54 f) 34 = read_u32 f 34" "read_u32 (take 54 f) 10 = 1078"
      "read_u16 (take 54 f) 28 = 8"
    using a(4,5) by (simp_all add: read_u32_take read_u16_take)
  have "bmp8_loadImage hp (Some f) = Inr ?img"
    unfolding bmp8_loadImage_def option.case Let_def hdr ct fields dsize_def [symmetric]
    using a(7,8) sig px
    by (simp split del: if_split)
  moreover have "bmp8_saveImage ?img = Returns f"
    using a(1) px(2) take_header_palette_rest [of f] by (simp add: bmp8_saveImage_def)
  ultimately show ?thesis by blast
qed

lemma length_bytes_to_pixels: "length (bytes_to_pixels bs) = length bs div 3"
  by (induction bs rule: bytes_to_pixels.induct) simp_all

lemma canonical_row:
  assumes ru: "ru \<le> rp" and len: "off + rp \<le> length f"
    and pad: "drop ru (take rp (drop off f)) = replicate (rp - ru) 0"
    and ru3: "ru = 3 * m"
  shows "take ru (pixels_to_bytes (bytes_to_pixels (take ru (drop off f)))) @ replicate (rp - ru) 0
           = take rp (drop off f)"
proof -
  have l: "length (take ru (drop off f)) = 3 * m"
    using ru len ru3 by simp
  have "pixels_to_bytes (bytes_to_pixels (take ru (drop off f))) = take ru (drop off f)"
    using l by (rule pixels_to_bytes_to_pixels)
  moreover have "take ru (take rp (drop off f)) = take ru (drop off f)"
    using ru by (simp add: min_def)
  moreover have "take ru (take rp (drop off f)) @ drop ru (take rp (drop off f)) = take rp (drop off f)"
    by (rule append_take_drop_id)
  ultimately show ?thesis
    using pad by simp
qed

lemma bmp24_roundtrip:
  assumes "canonical24 hp f"
  shows "\<exists>img img'. bmp24_loadImage hp (Some f) = Returns (Inr img)
                   \<and> bmp24_saveImage hp img = Returns (f, img')"
proof -
  let ?w = "file_width f" and ?h = "file_height f"
  let ?n = "nat ?h" and ?rp = "row_bytes ?w" and ?ru = "3 * nat ?w"
  let ?rows = "map (\<lambda>y. stored_row f (?n - 1 - y)) [0..<?n]"
  let ?img = "\<lparr>header = file_header f, header_info = file_info f,
                width = ?w, height = ?h, colorDepth = 24, data = Some ?rows\<rparr>"
  from assms have ld: "loadable24 hp f" and h: "0 < ?h"
    and c: "hdr_offset (file_header f) = 54"
      "hdr_size (file_header f) = 54 + info_imagesize (file_info f)"
      "hdr_reserved1 (file_header f) = 0" "hdr_reserved2 (file_header f) = 0"
      "info_size (file_info f) = 40" "info_planes (file_info f) = 1"
      "info_imagesize (file_info f) = of_nat (?rp * ?n)"
      "info_xresolution (file_info f) = 0" "info_yresolution (file_info f) = 0"
      "info_ncolors (file_info f) = 0" "info_importantcolors (file_info f) = 0"
    and len: "length f = 54 + ?n * ?rp"
    and pad: "\<forall>k<?n. drop ?ru (take ?rp (drop (54 + k * ?rp) f)) = replicate (?rp - ?ru) 0"
    unfolding canonical24_def list_all_iff by (blast, blast, blast, blast, blast, blast, blast,
      blast, blast, blast, blast, blast, blast, blast, simp)
  from ld have a: "hdr_type (file_header f) = 0x4D42" "info_bits (file_info f) = 24"
      "info_compression (file_info f) = 0" "0 < ?w" "?w * 3 \<le> INT_MAX"
      "can_alloc hp (row_bytes ?w)"
    by (simp_all add: loadable24_def)
  have abs_h: "\<bar>?h\<bar> = ?h" using h by simp
  have n: "0 < ?n" using h by simp
  have rurp: "?ru \<le> ?rp" unfolding row_bytes_def by (rule pad_le)
  have rp_pos: "0 < ?rp" using a(4) rurp by simp
  have load: "bmp24_loadImage hp (Some f) = Returns (Inr ?img)"
    using bmp24_load_loadable [OF ld] by (simp only: abs_h)
  \<comment> \<open>the headers that the save writes are those of the file\<close>
  have w_max: "?w \<le> INT_MAX" using a(4,5) by simp
  have isz: "padded_row_size ?w * word_of_int \<bar>?h\<bar> = info_imagesize (file_info f)"
    using imagesize_nat [of ?w ?h] a(4) w_max h c(7) by (simp add: row_bytes_def)
  have hdr: "(file_header f)\<lparr>hdr_type := 0x4D42, hdr_offset := 54,
                hdr_size := 54 + info_imagesize (file_info f),
                hdr_reserved1 := 0, hdr_reserved2 := 0\<rparr> = file_header f"
    using a(1) c(1-4) by simp
  have info: "(file_info f)\<lparr>info_size := 40, info_width := word_of_int ?w,
                info_height := word_of_int ?h, info_planes := 1, info_bits := 24,
                info_compression := 0, info_imagesize := info_imagesize (file_info f),
                info_xresolution := 0, info_yresolution := 0, info_ncolors := 0,
                info_importantcolors := 0\<rparr> = file_info f"
    using a(2,3) c(5,6,8-11) by (simp add: file_width_def file_height_def)
  have f54: "54 \<le> length f" using len by simp
  have eh: "encode_header (file_header f) = take 14 f"
    unfolding file_header_def fread_at_def using f54 by (simp add: encode_decode_header)
  have ei: "encode_info (file_info f) = take 40 (drop 14 f)"
    unfolding file_info_def fread_at_def using f54 by (simp add: encode_decode_info)
  have file1: "file_rawWrite 0 (take 14 f) [] = take 14 f"
    unfolding file_rawWrite_def using f54 by (intro fwrite_at_end [of _ "[]" 0, simplified]) auto
  have file2: "file_rawWrite 14 (take 40 (drop 14 f)) (take 14 f) = take 54 f"
  proof -
    have "file_rawWrite 14 (take 40 (drop 14 f)) (take 14 f) = take 14 f @ take 40 (drop 14 f)"
      unfolding file_rawWrite_def using f54 by (intro fwrite_at_end) auto
    also have "\<dots> = take 54 f" using take_add [of 14 40 f] by simp
    finally show ?thesis .
  qed
  \<comment> \<open>the rows that the save writes are those of the file\<close>
  let ?chunk = "\<lambda>k. take ?rp (drop (54 + k * ?rp) f)"
  let ?out = "\<lambda>y. take ?ru (pixels_to_bytes (?rows ! y)) @ replicate (?rp - ?ru) 0"
  have inside: "54 + k * ?rp + ?rp \<le> length f" if "k < ?n" for k
  proof -
    have "Suc k * ?rp \<le> ?n * ?rp" using that by (intro mult_le_mono1) simp
    then show ?thesis using len by simp
  qed
  have sr: "stored_row f k = bytes_to_pixels (take ?ru (drop (54 + k * ?rp) f))" for k
    by (simp add: stored_row_def c(1))
  have srl: "length (stored_row f k) = nat ?w" if "k < ?n" for k
  proof -
    have "length (take ?ru (drop (54 + k * ?rp) f)) = ?ru"
      using inside [OF that] rurp by simp
    then show ?thesis unfolding sr by (simp add: length_bytes_to_pixels)
  qed
  have chunk: "take ?ru (pixels_to_bytes (stored_row f k)) @ replicate (?rp - ?ru) 0 = ?chunk k"
    if "k < ?n" for k
    unfolding sr
    by (rule canonical_row [OF rurp inside [OF that] pad [rule_format, OF that] refl])
  have "map ?out (rev [0..<?n]) = map (\<lambda>y. ?chunk (?n - 1 - y)) (rev [0..<?n])"
    by (rule map_cong) (auto simp: chunk)
  also have "\<dots> = map ?chunk [0..<?n]" by (rule map_rev_upt)
  finally have "concat (map ?out (rev [0..<?n])) = take (?n * ?rp) (drop 54 f)"
    by (simp only: concat_chunks)
  also have "\<dots> = drop 54 f" using len by simp
  finally have bytes: "concat (map ?out (rev [0..<?n])) = drop 54 f" .
  have nonempty: "drop 54 f \<noteq> []" using len n rp_pos by simp
  have wr: "bmp24_writePixelData hp ?img (take 54 f) = Returns f"
  proof -
    have "bmp24_writePixelData hp ?img (take 54 f)
        = Returns (fwrite_at (unat (hdr_offset (header ?img)))
            (concat (map (\<lambda>y. take (3 * nat (width ?img)) (pixels_to_bytes (?rows ! y))
                          @ replicate (row_bytes (width ?img) - 3 * nat (width ?img)) 0)
                    (rev [0..<nat (height ?img)]))) (take 54 f))"
      by (rule bmp24_writePixelData_rows) (use a h srl in \<open>simp_all\<close>)
    also have "\<dots> = Returns (fwrite_at 54 (drop 54 f) (take 54 f))"
      using bytes c(1) by simp
    also have "fwrite_at 54 (drop 54 f) (take 54 f) = take 54 f @ drop 54 f"
      using nonempty f54 by (intro fwrite_at_end) simp_all
    finally show ?thesis by simp
  qed
  have "bmp24_saveImage hp ?img = Returns (f, ?img)"
    unfolding bmp24_saveImage_def Let_def
    using h isz [unfolded abs_h] hdr info wr
    by (simp add: INT_MIN_def eh ei file1 file2 abs_h)
  with load show ?thesis by blast
qed


lemma padded_bmp8_file_canonical: "canonical8 plain_heap padded_bmp8_file"
  unfolding canonical8_def padded_bmp8_file_def
  by (simp add: padded_bmp8_header_length plain_heap_def nth_append)
     (simp add: padded_bmp8_header_def read_u32_def read_u16_def)

lemma bottomup_bmp24_file_canonical: "canonical24 plain_heap bottomup_bmp24_file"
  by code_simp

text \<open>
  Claim C1, as stated, fails. The file below is a well-formed uncompressed 24-bit BMP with a
  40-byte info header whose resolution fields are 2835 pixels per metre. Saving the loaded
  image writes 0 into both fields, so the file written differs from the file read.
\<close>

theorem bmp_roundtrip_counterexample:
  "bmp24_loadImage plain_heap (Some dpi_bmp24_file)
     = Returns (Inr (loaded_1x2 2 2835 [[px 4 5 6], [px 1 2 3]]))
   \<and> bmp24_saveImage plain_heap (loaded_1x2 2 2835 [[px 4 5 6], [px 1 2 3]])
     = Returns (bottomup_bmp24_file, loaded_1x2 2 0 [[px 4 5 6], [px 1 2 3]])
   \<and> bottomup_bmp24_file \<noteq> dpi_bmp24_file"
  by code_simp

text \<open>
  Claim C1, amended. Loading a file and saving the loaded image reproduces the file byte
  for byte

  \<^item> for every 8-bit BMP that loads and whose pixel data starts right after the colour
    table (offset 1078) and ends with the file, the number of bytes after the colour table
    being the \<open>dataSize\<close> field, or \<open>width * height\<close> when that field is 0;
  \<^item> for every uncompressed 24-bit BMP that loads, is read to the end, and already has
    the header values that the save writes: pixel-data offset 54, file size
    \<open>54 + imagesize\<close>, reserved fields 0, info-header size 40, positive height, planes 1,
    \<open>imagesize\<close> equal to the padded row size times the height, resolution fields and
    colour counts 0; whose row padding bytes are 0; and which ends with its last row.
\<close>

theorem bmp_roundtrip:
  "(canonical8 hp f \<longrightarrow>
      (\<exists>img. bmp8_loadImage hp (Some f) = Inr img \<and> bmp8_saveImage img = Returns f))
   \<and> (canonical24 hp f \<longrightarrow>
      (\<exists>img img'. bmp24_loadImage hp (Some f) = Returns (Inr img)
                  \<and> bmp24_saveImage hp img = Returns (f, img')))"
  using bmp8_roundtrip bmp24_roundtrip by blast

theorem bmp_roundtrip_witness:
  "canonical8 plain_heap padded_bmp8_file
   \<and> (\<exists>img. bmp8_loadImage plain_heap (Some padded_bmp8_file) = Inr img
            \<and> bmp8_saveImage img = Returns padded_bmp8_file)
   \<and> canonical24 plain_heap bottomup_bmp24_file
   \<and> (\<exists>img img'. bmp24_loadImage plain_heap (Some bottomup_bmp24_file) = Returns (Inr img)
                  \<and> bmp24_saveImage plain_heap img = Returns (bottomup_bmp24_file, img'))"
  using bmp_roundtrip [of plain_heap padded_bmp8_file]
    bmp_roundtrip [of plain_heap bottomup_bmp24_file]
    padded_bmp8_file_canonical bottomup_bmp24_file_canonical
  by blast

subsection \<open>The boundary policy of the convolution filters\<close>












lemma kernel_offsets_1:
  "kernel_offsets 1 = [(-1, -1), (-1, 0), (-1, 1), (0, -1), (0, 0), (0, 1), (1, -1), (1, 0), (1, 1)]"
  by code_simp



lemma box_at: "i < 3 \<Longrightarrow> j < 3 \<Longrightarrow> box_blur_kernel ! i ! j = 1 / 9"
  by (simp add: box_blur_kernel_def)

lemma box_kernel_at:
  "kernel_at box_blur_kernel 0 0 = Returns (1 / 9)"
  "kernel_at box_blur_kernel 0 1 = Returns (1 / 9)"
  "kernel_at box_blur_kernel 0 2 = Returns (1 / 9)"
  "kernel_at box_blur_kernel 1 0 = Returns (1 / 9)"
  "kernel_at box_blur_kernel 1 1 = Returns (1 / 9)"
  "kernel_at box_blur_kernel 1 2 = Returns (1 / 9)"
  "kernel_at box_blur_kernel 2 0 = Returns (1 / 9)"
  "kernel_at box_blur_kernel 2 1 = Returns (1 / 9)"
  "kernel_at box_blur_kernel 2 2 = Returns (1 / 9)"
  by (simp_all add: kernel_at_def box_blur_kernel_def)


lemma spot_sum:
  "filter8_sum exact_fp [1, 2, 3, 4, 95, 6, 7, 8, 9] 3 box_blur_kernel 1 1 1 (kernel_offsets 1) 0
     = Returns 15"
  by (simp add: kernel_offsets_1 box_kernel_at exact_fp_def)

lemma round_clamp_15: "round_clamp exact_fp 15 = Returns 15"
  by (simp add: round_clamp_def c_trunc_def clamp_u8_def exact_fp_def INT_MIN_def INT_MAX_def)

lemma spot_loop:
  "filter8_loop exact_fp [1, 2, 3, 4, 95, 6, 7, 8, 9] 3 box_blur_kernel 1 [(1, 1)]
     [1, 2, 3, 4, 95, 6, 7, 8, 9] = Returns [1, 2, 3, 4, 15, 6, 7, 8, 9]"
  by (simp add: spot_sum round_clamp_15 Let_def)





lemma c_div2_3: "c_div2 3 = 1"
  by (simp add: c_div2_def)


lemma scenario_convolution:
  "bmp24_convolution exact_fp scenario_bmp24 0 0 box_blur_kernel 3
     (Some [[px 1 2 3, px 4 5 6], [px 7 8 9, px 10 11 12]]) = Returns (px 4 5 6)"
  "bmp24_convolution exact_fp scenario_bmp24 1 0 box_blur_kernel 3
     (Some [[px 1 2 3, px 4 5 6], [px 7 8 9, px 10 11 12]]) = Returns (px 5 6 7)"
  "bmp24_convolution exact_fp scenario_bmp24 0 1 box_blur_kernel 3
     (Some [[px 1 2 3, px 4 5 6], [px 7 8 9, px 10 11 12]]) = Returns (px 6 7 8)"
  "bmp24_convolution exact_fp scenario_bmp24 1 1 box_blur_kernel 3
     (Some [[px 1 2 3, px 4 5 6], [px 7 8 9, px 10 11 12]]) = Returns (px 7 8 9)"
  by (simp_all add: bmp24_convolution_def c_div2_3 kernel_offsets_1 box_kernel_at neighbor_def
      clamp_coord_def pixel_at_def scenario_bmp24_def px_def round_clamp_def c_trunc_def
      clamp_u8_def exact_fp_def INT_MIN_def INT_MAX_def)



lemma scenario_loop:
  "filter24_loop exact_fp scenario_bmp24 box_blur_kernel 3
     [[px 1 2 3, px 4 5 6], [px 7 8 9, px 10 11 12]] [(0, 0), (0, 1), (1, 0), (1, 1)]
     [[px 1 2 3, px 4 5 6], [px 7 8 9, px 10 11 12]]
   = Returns [[px 4 5 6, px 5 6 7], [px 6 7 8, px 7 8 9]]"
  by (simp add: scenario_convolution)











subsection \<open>What the in-place operations leave unchanged\<close>

lemma traverse_rel:
  assumes "traverse g xs = Returns ys" and "\<And>x y. g x = Returns y \<Longrightarrow> P x y"
  shows "list_all2 P xs ys"
  using assms(1)
proof (induction xs arbitrary: ys)
  case Nil
  then show ?case by simp
next
  case (Cons x xs)
  then show ?case
    by (auto split: outcome.splits intro: assms(2))
qed

lemma for_each_pixel_shape:
  assumes "for_each_pixel w h f d = Returns d'"
  shows "map length d' = map length d"
proof -
  from assms obtain ys where ys: "traverse (for_each (nat w) f) (take (nat h) d) = Returns ys"
      "d' = ys @ drop (nat h) d"
    by (auto simp: for_each_pixel_def for_each_def split: if_splits outcome.splits)
  have "list_all2 (\<lambda>row row'. length row' = length row) (take (nat h) d) ys"
    using ys(1) by (rule traverse_rel) (rule for_each_length)
  then have "map length ys = map length (take (nat h) d)"
    by (induction rule: list_all2_induct) simp_all
  moreover have "map length (take (nat h) d) @ map length (drop (nat h) d) = map length d"
    by (simp flip: map_append)
  ultimately show ?thesis
    unfolding ys(2) by simp
qed

lemma filter8_loop_length:
  "filter8_loop fl orig w k kr ps d = Returns d' \<Longrightarrow> length d' = length d"
proof (induction ps arbitrary: d)
  case Nil
  then show ?case by simp
next
  case (Cons p ps)
  obtain y x where p: "p = (y, x)" by (cases p)
  from Cons.prems obtain v where
    "filter8_loop fl orig w k kr ps (d[unat ((of_nat y :: u32) * w + of_nat x) := v]) = Returns d'"
    unfolding p by (auto simp: Let_def split: outcome.splits if_splits)
  from Cons.IH [OF this] show ?case by simp
qed

lemma filter24_loop_shape:
  "filter24_loop fl img k ks orig ps d = Returns d' \<Longrightarrow> map length d' = map length d"
proof (induction ps arbitrary: d)
  case Nil
  then show ?case by simp
next
  case (Cons p ps)
  obtain y x where p: "p = (y, x)" by (cases p)
  from Cons.prems obtain v where
    "filter24_loop fl img k ks orig ps (d[y := (d ! y)[x := v]]) = Returns d'"
    unfolding p by (auto split: outcome.splits if_splits)
  from Cons.IH [OF this] have "map length d' = (map length d)[y := length (d ! y)]"
    by (simp add: map_update)
  also have "\<dots> = map length d"
    by (cases "y < length d") (simp_all add: list_eq_iff_nth_eq nth_list_update)
  finally show ?case .
qed

lemma frame8_data: "length d' = length d \<Longrightarrow> data8 img = Some d \<Longrightarrow> same_frame8 img (img\<lparr>data8 := Some d'\<rparr>)"
  by (simp add: same_frame8_def)

lemma frame8_refl: "same_frame8 img img"
  by (simp add: same_frame8_def)

lemma frame24_data: "map length d' = map length d \<Longrightarrow> data img = Some d \<Longrightarrow> same_frame24 img (img\<lparr>data := Some d'\<rparr>)"
  by (simp add: same_frame24_def)

lemma frame24_refl: "same_frame24 img img"
  by (simp add: same_frame24_def)

lemma bmp8_negative_frame: "bmp8_negative img = Returns img' \<Longrightarrow> same_frame8 img img'"
  by (auto simp: bmp8_negative_def frame8_refl split: option.splits outcome.splits
      dest!: for_each_length intro: frame8_data)

lemma bmp8_brightness_frame: "bmp8_brightness img v = Returns img' \<Longrightarrow> same_frame8 img img'"
  by (auto simp: bmp8_brightness_def frame8_refl split: option.splits outcome.splits
      dest!: for_each_length intro: frame8_data)

lemma bmp8_threshold_frame: "bmp8_threshold img t = Returns img' \<Longrightarrow> same_frame8 img img'"
  by (auto simp: bmp8_threshold_def Let_def frame8_refl split: option.splits outcome.splits
      dest!: for_each_length intro: frame8_data)

lemma bmp8_applyFilter_frame:
  "bmp8_applyFilter fl hp img k ks = Returns img' \<Longrightarrow> same_frame8 img img'"
  by (auto simp: bmp8_applyFilter_def Let_def frame8_refl split: option.splits outcome.splits if_splits
      dest!: filter8_loop_length intro: frame8_data)

lemma bmp8_equalize_frame:
  "bmp8_equalize fl hp img = Returns img' \<Longrightarrow> same_frame8 img img'"
  by (auto simp: bmp8_equalize_def Let_def frame8_refl split: option.splits outcome.splits if_splits
      dest!: for_each_length intro: frame8_data)

lemma bmp24_negative_frame: "bmp24_negative img = Returns img' \<Longrightarrow> same_frame24 img img'"
  by (auto simp: bmp24_negative_def frame24_refl split: option.splits outcome.splits
      dest!: for_each_pixel_shape intro: frame24_data)

lemma bmp24_brightness_frame: "bmp24_brightness img v = Returns img' \<Longrightarrow> same_frame24 img img'"
  by (auto simp: bmp24_brightness_def frame24_refl split: option.splits outcome.splits
      dest!: for_each_pixel_shape intro: frame24_data)

lemma bmp24_grayscale_frame: "bmp24_grayscale fl img = Returns img' \<Longrightarrow> same_frame24 img img'"
  by (auto simp: bmp24_grayscale_def frame24_refl split: option.splits outcome.splits
      dest!: for_each_pixel_shape intro: frame24_data)

lemma bmp24_applyFilter_frame:
  "bmp24_applyFilter fl hp img k ks = Returns img' \<Longrightarrow> same_frame24 img img'"
  by (auto simp: bmp24_applyFilter_def Let_def frame24_refl split: option.splits outcome.splits if_splits
      dest!: filter24_loop_shape intro: frame24_data)

lemma bmp24_equalize_frame:
  "bmp24_equalize fl hp img = Returns img' \<Longrightarrow> same_frame24 img img'"
  by (auto simp: bmp24_equalize_def Let_def frame24_refl split: option.splits outcome.splits if_splits
      dest!: for_each_pixel_shape intro: frame24_data)

text \<open>
  Whenever an in-place operation returns, the image differs from the one it was given at
  most in the content of its pixel bytes: the header block, the palette, the width, the
  height, the colour depth, \<open>dataSize\<close> and the shape of the pixel buffer are unchanged.
\<close>

lemma in_place_operations_return_same_frame:
  "(bmp8_negative img8 = Returns img8' \<longrightarrow> same_frame8 img8 img8')
   \<and> (bmp8_brightness img8 v = Returns img8' \<longrightarrow> same_frame8 img8 img8')
   \<and> (bmp8_threshold img8 t = Returns img8' \<longrightarrow> same_frame8 img8 img8')
   \<and> (bmp8_applyFilter fl hp img8 k ks = Returns img8' \<longrightarrow> same_frame8 img8 img8')
   \<and> (bmp8_equalize fl hp img8 = Returns img8' \<longrightarrow> same_frame8 img8 img8')
   \<and> (bmp24_negative img24 = Returns img24' \<longrightarrow> same_frame24 img24 img24')
   \<and> (bmp24_brightness img24 v = Returns img24' \<longrightarrow> same_frame24 img24 img24')
   \<and> (bmp24_grayscale fl img24 = Returns img24' \<longrightarrow> same_frame24 img24 img24')
   \<and> (bmp24_applyFilter fl hp img24 k ks = Returns img24' \<longrightarrow> same_frame24 img24 img24')
   \<and> (bmp24_equalize fl hp img24 = Returns img24' \<longrightarrow> same_frame24 img24 img24')"
  by (intro conjI impI;
      erule bmp8_negative_frame bmp8_brightness_frame bmp8_threshold_frame
        bmp8_applyFilter_frame bmp8_equalize_frame bmp24_negative_frame bmp24_brightness_frame
        bmp24_grayscale_frame bmp24_applyFilter_frame bmp24_equalize_frame)

lemma grid_Cons:
  "a < b \<Longrightarrow> c < e \<Longrightarrow>
   concat (map (\<lambda>y. map (\<lambda>x. (y, x)) [c..<e]) [a..<b])
     = (a, c) # (map (\<lambda>x. (a, x)) [Suc c..<e]
                 @ concat (map (\<lambda>y. map (\<lambda>x. (y, x)) [c..<e]) [Suc a..<b]))"
  by (simp add: upt_conv_Cons)

lemma filter8_loop_Undefined:
  "filter8_sum fl orig w k r (of_nat y) (of_nat x) (kernel_offsets r) 0 = Undefined
   \<Longrightarrow> filter8_loop fl orig w k r ((y, x) # rest) d = Undefined"
  by simp

lemma kernel_offsets_2:
  "kernel_offsets 2 = (-2, -2) # (-2, -1) # tl (tl (kernel_offsets 2))"
  by code_simp

lemma dot_pixels:
  "filter8_pixels 1 1 2 = (2, 2) # tl (filter8_pixels 1 1 2)"
proof -
  have u: "unat (word_of_int 2 :: u32) = 2" "unat ((1 :: u32) - word_of_int 2) = 4294967295"
    by (simp_all add: unsigned_minus_1_eq_mask mask_eq_exp_minus_1)
  have lt: "(2 :: nat) < 4294967295"
    by simp
  have "filter8_pixels 1 1 2
          = concat (map (\<lambda>y. map (\<lambda>x. (y, x)) [2..<4294967295]) [2..<4294967295])"
    unfolding filter8_pixels_def by (simp only: u)
  also note grid_Cons [OF lt lt]
  finally show ?thesis
    by (simp only: list.sel)
qed

lemma dot_sum:
  "filter8_sum exact_fp [7] 1 box_blur_kernel5 2 2 2 (kernel_offsets 2) 0 = Undefined"
  by (subst kernel_offsets_2) (simp add: kernel_at_def box_blur_kernel5_def)

text \<open>
  Claim C10. Every in-place operation on a valid image, \<^verbatim>\<open>applyFilter\<close> with any kernel of
  odd positive size included, is to modify pixel bytes only. \<^verbatim>\<open>bmp8_applyFilter\<close> does not
  achieve this when the radius of the kernel exceeds the height or the width of the
  image. For the 1x1 image \<open>dot_bmp8\<close> and a 5x5 kernel the radius is 2, the loop bound
  \<^verbatim>\<open>height - kernelRadius\<close> wraps around to \<open>2^32 - 1\<close> in \<^verbatim>\<open>unsigned int\<close>, the loops start at
  the pixel \<open>(2, 2)\<close>, which the image does not have, and the second sample of that pixel is
  read at index 1 of the copy of the single pixel byte: the run leaves the pixel buffer
  and its behaviour is undefined.
\<close>

theorem filter8_kernel_exceeds_image:
  "unat (height8 dot_bmp8 - word_of_int (5 div 2)) = 4294967295
   \<and> hd (filter8_pixels (width8 dot_bmp8) (height8 dot_bmp8) (5 div 2)) = (2, 2)
   \<and> unat (((2 :: u32) + word_of_int (- 2)) * width8 dot_bmp8 + (2 + word_of_int (- 1))) = 1
   \<and> bmp8_applyFilter exact_fp plain_heap dot_bmp8 (Some box_blur_kernel5) 5 = Undefined"
proof (intro conjI)
  show "unat (height8 dot_bmp8 - word_of_int (5 div 2)) = 4294967295"
    by (simp add: dot_bmp8_def unsigned_minus_1_eq_mask mask_eq_exp_minus_1)
  show "hd (filter8_pixels (width8 dot_bmp8) (height8 dot_bmp8) (5 div 2)) = (2, 2)"
    by (simp add: dot_bmp8_def) (subst dot_pixels, simp)
  show "unat (((2 :: u32) + word_of_int (- 2)) * width8 dot_bmp8 + (2 + word_of_int (- 1))) = 1"
    by (simp add: dot_bmp8_def)
  have "filter8_loop exact_fp [7] 1 box_blur_kernel5 2 (filter8_pixels 1 1 2) [7] = Undefined"
    by (subst dot_pixels) (simp only: filter8_loop_Undefined dot_sum of_nat_numeral)
  then show "bmp8_applyFilter exact_fp plain_heap dot_bmp8 (Some box_blur_kernel5) 5 = Undefined"
    by (simp add: bmp8_applyFilter_def dot_bmp8_def plain_heap_allocates)
qed

end
